theory Spec2Isabelle
  imports Main
begin

section \<open>Strings and the Unicode tables\<close>

text \<open>
  A Go string is read by the validators through \<^verbatim>\<open>for _, r := range s\<close> and
  \<^verbatim>\<open>utf8.RuneCountInString\<close>, which both see the sequence of decoded runes (one
  U+FFFD per undecodable byte). A string is therefore modelled by that sequence: a list of
  code points. The byte-level searches of the code (\<^verbatim>\<open>strings.Contains\<close>,
  \<^verbatim>\<open>strings.Count\<close>, \<^verbatim>\<open>strings.ReplaceAll\<close>) all look for the UTF-8 encoding of
  whole runes, and UTF-8 is self-synchronising, so they are searches for runes of the list.
\<close>

type_synonym rune = nat

definition runes :: "string \<Rightarrow> rune list" where
  "runes s = map of_char s"

definition RuneCountInString :: "rune list \<Rightarrow> nat" where
  "RuneCountInString s = length s"

definition Contains :: "rune list \<Rightarrow> rune \<Rightarrow> bool" where
  "Contains s r = (r \<in> set s)"

definition Count :: "rune list \<Rightarrow> rune \<Rightarrow> nat" where
  "Count s r = length (filter (\<lambda>x. x = r) s)"

text \<open>
  The classification tables of Go's \<^verbatim>\<open>unicode\<close> package are not part of the
  repository; every function that consults them takes them as a parameter.
\<close>

record unicode =
  IsUpper :: "rune \<Rightarrow> bool"
  IsLower :: "rune \<Rightarrow> bool"
  IsDigit :: "rune \<Rightarrow> bool"
  IsLetter :: "rune \<Rightarrow> bool"
  IsSpace :: "rune \<Rightarrow> bool"
  In_Mn :: "rune \<Rightarrow> bool"
  In_Mc :: "rune \<Rightarrow> bool"
  In_Me :: "rune \<Rightarrow> bool"

text \<open>
  A concrete table to run the model on: ASCII is classified as Go classifies it, the
  block U+0300..U+036F (Combining Diacritical Marks) is nonspacing marks, and no other code
  point is in any class. It is used for concrete evaluations only.
\<close>

definition sample_unicode :: unicode where
  "sample_unicode =
     \<lparr> IsUpper = (\<lambda>r. 65 \<le> r \<and> r \<le> 90),
       IsLower = (\<lambda>r. 97 \<le> r \<and> r \<le> 122),
       IsDigit = (\<lambda>r. 48 \<le> r \<and> r \<le> 57),
       IsLetter = (\<lambda>r. (65 \<le> r \<and> r \<le> 90) \<or> (97 \<le> r \<and> r \<le> 122)),
       IsSpace = (\<lambda>r. (9 \<le> r \<and> r \<le> 13) \<or> r = 32),
       In_Mn = (\<lambda>r. 0x300 \<le> r \<and> r \<le> 0x36F),
       In_Mc = (\<lambda>r. False),
       In_Me = (\<lambda>r. False) \<rparr>"

section \<open>Text validation (internal/validation/validation.go)\<close>

definition dangerousUnicodeRanges :: "(rune \<times> rune) list" where
  "dangerousUnicodeRanges =
     [(0x0300, 0x036F), (0x1AB0, 0x1AFF), (0x1DC0, 0x1DFF), (0x20D0, 0x20FF),
      (0xFE20, 0xFE2F), (0x200B, 0x200D), (0x2060, 0x2064), (0xFEFF, 0xFEFF)]"

definition controlCharRanges :: "(rune \<times> rune) list" where
  "controlCharRanges = [(0x0000, 0x0008), (0x0B, 0x0C), (0x0E, 0x1F), (0x007F, 0x009F)]"

definition isControlChar :: "rune \<Rightarrow> bool" where
  "isControlChar r = list_ex (\<lambda>(start, end). r \<ge> start \<and> r \<le> end) controlCharRanges"

definition isCombiningChar :: "unicode \<Rightarrow> rune \<Rightarrow> bool" where
  "isCombiningChar U r = (In_Mn U r \<or> In_Mc U r \<or> In_Me U r)"

definition isDangerousUnicode :: "rune \<Rightarrow> bool" where
  "isDangerousUnicode r =
     list_ex (\<lambda>(start, end). r \<ge> start \<and> r \<le> end) dangerousUnicodeRanges"

definition maxCombining :: nat where
  "maxCombining = 2"

text \<open>
  The loop of \<^verbatim>\<open>CleanText\<close>; the second argument is \<^verbatim>\<open>combiningCount\<close>, the result
  is what the loop appends to the builder.
\<close>

fun CleanText_loop :: "unicode \<Rightarrow> nat \<Rightarrow> rune list \<Rightarrow> rune list" where
  "CleanText_loop U combiningCount [] = []"
| "CleanText_loop U combiningCount (r # rest) =
     (if isControlChar r then CleanText_loop U combiningCount rest
      else if isCombiningChar U r then
        (if combiningCount + 1 \<le> maxCombining
         then r # CleanText_loop U (combiningCount + 1) rest
         else CleanText_loop U (combiningCount + 1) rest)
      else if isDangerousUnicode r then CleanText_loop U 0 rest
      else r # CleanText_loop U 0 rest)"

definition CleanText :: "unicode \<Rightarrow> rune list \<Rightarrow> rune list" where
  "CleanText U input = (if input = [] then input else CleanText_loop U 0 input)"

definition maxConsecutiveCombining :: nat where
  "maxConsecutiveCombining = 5"

text \<open>
  The loop of \<^verbatim>\<open>ValidateTextSafety\<close>: \<open>True\<close> when it returns from inside the loop
  (the counter went over the maximum), \<open>False\<close> when it runs to the end of the string.
\<close>

fun ValidateTextSafety_loop :: "unicode \<Rightarrow> nat \<Rightarrow> rune list \<Rightarrow> bool" where
  "ValidateTextSafety_loop U combiningCount [] = False"
| "ValidateTextSafety_loop U combiningCount (r # rest) =
     (if isCombiningChar U r then
        (if combiningCount + 1 > maxConsecutiveCombining then True
         else ValidateTextSafety_loop U (combiningCount + 1) rest)
      else ValidateTextSafety_loop U 0 rest)"

definition ValidateTextSafety :: "unicode \<Rightarrow> rune list \<Rightarrow> bool \<times> string" where
  "ValidateTextSafety U input =
     (if input = [] then (True, [])
      else if ValidateTextSafety_loop U 0 input
        then (False, ''Text contains excessive special characters that may break display'')
      else if Count input 0xED > 10 \<or> Count input 0xEC > 10
        then (False, ''Text contains suspicious character patterns'')
      else if Contains input 0x200B \<or> Contains input 0x200C \<or> Contains input 0x200D
        then (False, ''Text contains invisible characters'')
      else (True, []))"

text \<open>The regular expression \<^verbatim>\<open>^[a-zA-Z0-9_\-]+$\<close>, matched against the whole string.\<close>

definition validUsernameChar :: "rune \<Rightarrow> bool" where
  "validUsernameChar r =
     ((97 \<le> r \<and> r \<le> 122) \<or> (65 \<le> r \<and> r \<le> 90) \<or> (48 \<le> r \<and> r \<le> 57)
      \<or> r = 95 \<or> r = 45)"

definition validUsername_MatchString :: "rune list \<Rightarrow> bool" where
  "validUsername_MatchString s = (s \<noteq> [] \<and> list_all validUsernameChar s)"

definition ValidateUsername :: "unicode \<Rightarrow> rune list \<Rightarrow> bool \<times> string" where
  "ValidateUsername U username =
     (let cleaned = CleanText U username in
      if Contains cleaned 32 then (False, ''Username cannot contain spaces'')
      else if \<not> fst (ValidateTextSafety U cleaned) then (False, snd (ValidateTextSafety U cleaned))
      else let length = RuneCountInString cleaned in
        if length < 3 then (False, ''Username must be at least 3 characters'')
        else if length > 50 then (False, ''Username must be no more than 50 characters'')
        else if \<not> validUsername_MatchString cleaned
          then (False, ''Username can only contain letters, numbers, underscores, and hyphens'')
        else (True, []))"

definition ValidatePassword :: "unicode \<Rightarrow> rune list \<Rightarrow> bool \<times> string" where
  "ValidatePassword U password =
     (let length = RuneCountInString password in
      if length < 8 then (False, ''Password must be at least 8 characters'')
      else if length > 128 then (False, ''Password must be no more than 128 characters'')
      else if Contains password 32 then (False, ''Password cannot contain spaces'')
      else if \<not> list_ex (IsUpper U) password
        then (False, ''Password must contain at least one uppercase letter'')
      else if \<not> list_ex (IsLower U) password
        then (False, ''Password must contain at least one lowercase letter'')
      else if \<not> list_ex (IsDigit U) password
        then (False, ''Password must contain at least one number'')
      else if \<not> list_ex (\<lambda>char. \<not> IsLetter U char \<and> \<not> IsDigit U char \<and> \<not> IsSpace U char) password
        then (False, ''Password must contain at least one special character (!@#$%^&*)'')
      else (True, []))"

text \<open>
  \<^verbatim>\<open>strings.ReplaceAll(s, old, new)\<close> for an \<open>old\<close> of one rune and of two runes, and
  \<^verbatim>\<open>strings.Contains(s, old)\<close> for an \<open>old\<close> of two runes. Matches are replaced from
  left to right and do not overlap.
\<close>

definition ReplaceAll1 :: "rune list \<Rightarrow> rune \<Rightarrow> rune list \<Rightarrow> rune list" where
  "ReplaceAll1 s old new = concat (map (\<lambda>r. if r = old then new else [r]) s)"

fun ReplaceAll2 :: "rune list \<Rightarrow> rune \<Rightarrow> rune \<Rightarrow> rune list \<Rightarrow> rune list" where
  "ReplaceAll2 (a # b # rest) x y new =
     (if a = x \<and> b = y then new @ ReplaceAll2 rest x y new
      else a # ReplaceAll2 (b # rest) x y new)"
| "ReplaceAll2 s x y new = s"

fun Contains2 :: "rune list \<Rightarrow> rune \<Rightarrow> rune \<Rightarrow> bool" where
  "Contains2 (a # b # rest) x y = ((a = x \<and> b = y) \<or> Contains2 (b # rest) x y)"
| "Contains2 s x y = False"

text \<open>
  \<^verbatim>\<open>strings.TrimSpace\<close>: the string without its leading and trailing white space, as
  \<^verbatim>\<open>unicode.IsSpace\<close> defines it.
\<close>

definition TrimSpace :: "unicode \<Rightarrow> rune list \<Rightarrow> rune list" where
  "TrimSpace U s = rev (dropWhile (IsSpace U) (rev (dropWhile (IsSpace U) s)))"

text \<open>
  The loop \<^verbatim>\<open>for strings.Contains(cleaned, "  ") { cleaned = strings.ReplaceAll(cleaned, "  ", " ") }\<close>
  of \<^verbatim>\<open>ValidatePostTitle\<close>. Every round shortens the string, so the loop ends.
\<close>

function collapseSpaces :: "rune list \<Rightarrow> rune list" where
  "collapseSpaces cleaned =
     (if Contains2 cleaned 32 32 then collapseSpaces (ReplaceAll2 cleaned 32 32 [32])
      else cleaned)"
  by pat_completeness auto
termination
proof (relation "measure length")
  show "wf (measure length)" by simp
next
  fix cleaned :: "rune list"
  have le: "length (ReplaceAll2 s x y [z]) \<le> length s" for s x y z
    by (induction s x y "[z]" rule: ReplaceAll2.induct) auto
  have shorter: "Contains2 s x y \<Longrightarrow> length (ReplaceAll2 s x y [z]) < length s" for s x y z
  proof (induction s x y rule: Contains2.induct)
    case (1 a b rest x y)
    then show ?case using le [of rest x y z] by auto
  qed auto
  assume "Contains2 cleaned 32 32"
  then show "(ReplaceAll2 cleaned 32 32 [32], cleaned) \<in> measure length"
    using shorter [of cleaned 32 32 32] by simp
qed

declare collapseSpaces.simps [simp del]

text \<open>
  The string \<^verbatim>\<open>ValidatePostTitle\<close> checks: the title cleaned, its line breaks and tabs
  made spaces, runs of spaces made one space.
\<close>

definition normalizedTitle :: "unicode \<Rightarrow> rune list \<Rightarrow> rune list" where
  "normalizedTitle U title =
     (let cleaned = CleanText U title;
          cleaned = ReplaceAll1 cleaned 10 [32];
          cleaned = ReplaceAll1 cleaned 13 [32];
          cleaned = ReplaceAll1 cleaned 9 [32]
      in collapseSpaces cleaned)"

definition ValidatePostTitle :: "unicode \<Rightarrow> rune list \<Rightarrow> bool \<times> string" where
  "ValidatePostTitle U title =
     (let cleaned = normalizedTitle U title in
      if cleaned \<noteq> TrimSpace U cleaned
        then (False, ''Title cannot have spaces at the beginning or end'')
      else if \<not> fst (ValidateTextSafety U cleaned) then (False, snd (ValidateTextSafety U cleaned))
      else let length = RuneCountInString cleaned in
        if length = 0 then (False, ''Title is required'')
        else if length < 3 then (False, ''Title must be at least 3 characters'')
        else if length > 255 then (False, ''Title must be no more than 255 characters'')
        else (True, []))"

text \<open>
  The string \<^verbatim>\<open>ValidatePostContent\<close> and \<^verbatim>\<open>ValidateCommentContent\<close> check: the
  content cleaned, its line endings made \<^verbatim>\<open>\n\<close>, each tab made four spaces.
\<close>

definition normalizedContent :: "unicode \<Rightarrow> rune list \<Rightarrow> rune list" where
  "normalizedContent U content =
     (let cleaned = CleanText U content;
          cleaned = ReplaceAll2 cleaned 13 10 [10];
          cleaned = ReplaceAll1 cleaned 13 [10];
          cleaned = ReplaceAll1 cleaned 9 [32, 32, 32, 32]
      in cleaned)"

definition ValidatePostContent :: "unicode \<Rightarrow> rune list \<Rightarrow> bool \<times> string" where
  "ValidatePostContent U content =
     (let cleaned = normalizedContent U content in
      if cleaned \<noteq> TrimSpace U cleaned
        then (False, ''Content cannot have spaces at the beginning or end'')
      else if \<not> fst (ValidateTextSafety U cleaned) then (False, snd (ValidateTextSafety U cleaned))
      else let length = RuneCountInString cleaned in
        if length = 0 then (False, ''Content is required'')
        else if length < 10 then (False, ''Content must be at least 10 characters'')
        else if length > 10000 then (False, ''Content must be no more than 10,000 characters'')
        else (True, []))"

definition ValidateCommentContent :: "unicode \<Rightarrow> rune list \<Rightarrow> bool \<times> string" where
  "ValidateCommentContent U content =
     (let cleaned = normalizedContent U content in
      if cleaned \<noteq> TrimSpace U cleaned
        then (False, ''Comment cannot have spaces at the beginning or end'')
      else if \<not> fst (ValidateTextSafety U cleaned) then (False, snd (ValidateTextSafety U cleaned))
      else let length = RuneCountInString cleaned in
        if length = 0 then (False, ''Comment content is required'')
        else if length < 10 then (False, ''Comment must be at least 10 characters'')
        else if length > 5000 then (False, ''Comment must be no more than 5,000 characters'')
        else (True, []))"

text \<open>
  Specification predicates: the string holds \<open>n\<close> combining marks in a row starting at
  position \<open>i\<close>; the string holds more than 5 consecutive combining marks somewhere.
\<close>

definition combiningRunAt :: "unicode \<Rightarrow> rune list \<Rightarrow> nat \<Rightarrow> nat \<Rightarrow> bool" where
  "combiningRunAt U s i n = (i + n \<le> length s \<and> list_all (isCombiningChar U) (take n (drop i s)))"

definition moreThan5Combining :: "unicode \<Rightarrow> rune list \<Rightarrow> bool" where
  "moreThan5Combining U s = list_ex (\<lambda>i. combiningRunAt U s i 6) [0..<length s]"

section \<open>The store (internal/database/db.go)\<close>

text \<open>
  The tables of the schema that the services below read and write, each a list of rows in
  insertion order. Of \<^verbatim>\<open>posts\<close> and \<^verbatim>\<open>comments\<close> only the \<^verbatim>\<open>id\<close> column is kept, of
  the other tables the columns the queries name; the autoincremented \<^verbatim>\<open>id\<close> and the
  \<^verbatim>\<open>created_at\<close> defaults are left out. The column \<^verbatim>\<open>sessions.expires_at\<close> holds
  the text the driver wrote, as SQLite stores it; \<^verbatim>\<open>users.created_at\<close> is only carried
  along to the \<^verbatim>\<open>User\<close> value and is an opaque number here.
\<close>

record users_row =
  u_id :: int
  u_uuid :: string
  u_username :: string
  u_email :: string
  u_avatar_url :: "string option"
  u_is_admin :: bool
  u_created_at :: int

record sessions_row =
  s_token :: string
  s_user_id :: int
  s_expires_at :: string

text \<open>A row of \<^verbatim>\<open>post_likes\<close> or of \<^verbatim>\<open>comment_likes\<close>.\<close>

record like_row =
  l_user_id :: int
  l_target_id :: int
  l_is_like :: bool

datatype target = Post | Comment

datatype table = Users | Sessions | Targets target | Likes target

datatype stmt = Select "table list" | Insert table | Update table | Delete table

text \<open>
  The database: its tables, and the statements sent to it so far, in order (\<open>trace\<close>),
  which makes the order of reads and writes of an operation observable.
\<close>

record db =
  users :: "users_row list"
  sessions :: "sessions_row list"
  posts :: "int list"
  comments :: "int list"
  post_likes :: "like_row list"
  comment_likes :: "like_row list"
  trace :: "stmt list"

datatype error =
    DriverError
  | ConstraintFailed
  | ErrNoRows
  | ScanNullError
  | RandError
  | DatabaseError error
  | PostNotFound
  | CommentNotFound
  | InvalidSession

text \<open>
  \<open>DriverError\<close> is any failure the driver reports for a statement (I/O, a locked
  database); \<open>ConstraintFailed\<close> a \<^verbatim>\<open>UNIQUE\<close> or \<^verbatim>\<open>FOREIGN KEY\<close> violation
  (the database is opened with \<^verbatim>\<open>_foreign_keys=on\<close>); \<open>ScanNullError\<close> is
  \<^verbatim>\<open>database/sql\<close>'s refusal to convert \<^verbatim>\<open>NULL\<close> to an \<^verbatim>\<open>int\<close>;
  \<open>DatabaseError e\<close> is \<^verbatim>\<open>fmt.Errorf("database error: %w", e)\<close>; the last three are
  the errors \<^verbatim>\<open>"post not found"\<close>, \<^verbatim>\<open>"comment not found"\<close> and
  \<^verbatim>\<open>"invalid or expired session"\<close>.

  Whether the driver fails on a statement is an input of each operation: a list of
  booleans, the \<open>i\<close>-th telling whether the \<open>i\<close>-th statement the operation sends fails.
  Past the end of the list nothing fails, so \<open>[]\<close> is a store that works.
\<close>

definition fault :: "bool list \<Rightarrow> nat \<Rightarrow> bool" where
  "fault fs i = (i < length fs \<and> fs ! i)"

definition sent :: "stmt \<Rightarrow> db \<Rightarrow> db" where
  "sent q d = d\<lparr>trace := trace d @ [q]\<rparr>"

text \<open>\<^verbatim>\<open>db.QueryRow(...).Scan(...)\<close> of a query whose result rows are \<open>rows\<close>.\<close>

definition QueryRow_Scan :: "bool \<Rightarrow> 'a list \<Rightarrow> error + 'a" where
  "QueryRow_Scan failed rows =
     (if failed then Inl DriverError
      else case rows of [] \<Rightarrow> Inl ErrNoRows | row # _ \<Rightarrow> Inr row)"

fun targets :: "target \<Rightarrow> db \<Rightarrow> int list" where
  "targets Post d = posts d"
| "targets Comment d = comments d"

fun like_rows :: "target \<Rightarrow> db \<Rightarrow> like_row list" where
  "like_rows Post d = post_likes d"
| "like_rows Comment d = comment_likes d"

fun likes_update :: "target \<Rightarrow> (like_row list \<Rightarrow> like_row list) \<Rightarrow> db \<Rightarrow> db" where
  "likes_update Post f d = d\<lparr>post_likes := f (post_likes d)\<rparr>"
| "likes_update Comment f d = d\<lparr>comment_likes := f (comment_likes d)\<rparr>"

definition vote_of :: "int \<Rightarrow> int \<Rightarrow> like_row \<Rightarrow> bool" where
  "vote_of userID targetID row = (l_user_id row = userID \<and> l_target_id row = targetID)"

text \<open>\<^verbatim>\<open>SELECT 1 FROM posts WHERE id = ? LIMIT 1\<close> (and the same of \<^verbatim>\<open>comments\<close>).\<close>

definition SELECT_1 :: "bool \<Rightarrow> target \<Rightarrow> int \<Rightarrow> db \<Rightarrow> (error + int) \<times> db" where
  "SELECT_1 failed t targetID d =
     (QueryRow_Scan failed (take 1 (map (\<lambda>_. 1) (filter (\<lambda>i. i = targetID) (targets t d)))),
      sent (Select [Targets t]) d)"

text \<open>
  \<^verbatim>\<open>SELECT is_like FROM post_likes WHERE user_id = ? AND post_id = ?\<close>, scanned into a
  \<^verbatim>\<open>sql.NullBool\<close>. The column is \<^verbatim>\<open>NOT NULL\<close>, so the value scanned is valid.
\<close>

record NullBool =
  Bool :: bool
  Valid :: bool

definition SELECT_is_like ::
  "bool \<Rightarrow> target \<Rightarrow> int \<Rightarrow> int \<Rightarrow> db \<Rightarrow> (error + NullBool) \<times> db" where
  "SELECT_is_like failed t userID targetID d =
     (QueryRow_Scan failed
        (map (\<lambda>row. \<lparr>Bool = l_is_like row, Valid = True\<rparr>)
           (filter (vote_of userID targetID) (like_rows t d))),
      sent (Select [Likes t]) d)"

text \<open>
  \<^verbatim>\<open>INSERT INTO post_likes (user_id, post_id, is_like) VALUES (?, ?, ?)\<close>, under the
  table's constraints: both foreign keys and \<^verbatim>\<open>UNIQUE(user_id, post_id)\<close>.
\<close>

definition INSERT_like ::
  "bool \<Rightarrow> target \<Rightarrow> int \<Rightarrow> int \<Rightarrow> bool \<Rightarrow> db \<Rightarrow> error option \<times> db" where
  "INSERT_like failed t userID targetID isLike d =
     (let d1 = sent (Insert (Likes t)) d in
      if failed then (Some DriverError, d1)
      else if userID \<notin> set (map u_id (users d)) \<or> targetID \<notin> set (targets t d)
        then (Some ConstraintFailed, d1)
      else if list_ex (vote_of userID targetID) (like_rows t d) then (Some ConstraintFailed, d1)
      else (None, likes_update t
              (\<lambda>rows. rows @ [\<lparr>l_user_id = userID, l_target_id = targetID, l_is_like = isLike\<rparr>]) d1))"

text \<open>\<^verbatim>\<open>DELETE FROM post_likes WHERE user_id = ? AND post_id = ?\<close>\<close>

definition DELETE_like :: "bool \<Rightarrow> target \<Rightarrow> int \<Rightarrow> int \<Rightarrow> db \<Rightarrow> error option \<times> db" where
  "DELETE_like failed t userID targetID d =
     (let d1 = sent (Delete (Likes t)) d in
      if failed then (Some DriverError, d1)
      else (None, likes_update t (filter (\<lambda>row. \<not> vote_of userID targetID row)) d1))"

text \<open>\<^verbatim>\<open>UPDATE post_likes SET is_like = ? WHERE user_id = ? AND post_id = ?\<close>\<close>

definition UPDATE_like ::
  "bool \<Rightarrow> target \<Rightarrow> int \<Rightarrow> int \<Rightarrow> bool \<Rightarrow> db \<Rightarrow> error option \<times> db" where
  "UPDATE_like failed t userID targetID isLike d =
     (let d1 = sent (Update (Likes t)) d in
      if failed then (Some DriverError, d1)
      else (None, likes_update t
              (map (\<lambda>row. if vote_of userID targetID row then row\<lparr>l_is_like := isLike\<rparr> else row)) d1))"

section \<open>The vote toggler (internal/services/likes.go)\<close>

definition postExists :: "bool \<Rightarrow> db \<Rightarrow> int \<Rightarrow> (error + bool) \<times> db" where
  "postExists failed d postID =
     (case SELECT_1 failed Post postID d of
        (Inl err, d1) \<Rightarrow> if err = ErrNoRows then (Inr False, d1) else (Inl err, d1)
      | (Inr exists, d1) \<Rightarrow> (Inr True, d1))"

definition commentExists :: "bool \<Rightarrow> db \<Rightarrow> int \<Rightarrow> (error + bool) \<times> db" where
  "commentExists failed d commentID =
     (case SELECT_1 failed Comment commentID d of
        (Inl err, d1) \<Rightarrow> if err = ErrNoRows then (Inr False, d1) else (Inl err, d1)
      | (Inr exists, d1) \<Rightarrow> (Inr True, d1))"

definition LikePost :: "bool list \<Rightarrow> db \<Rightarrow> int \<Rightarrow> int \<Rightarrow> error option \<times> db" where
  "LikePost fs d userID postID =
     (case postExists (fault fs 0) d postID of
        (Inl err, d1) \<Rightarrow> (Some (DatabaseError err), d1)
      | (Inr exists, d1) \<Rightarrow>
          if \<not> exists then (Some PostNotFound, d1)
          else (case SELECT_is_like (fault fs 1) Post userID postID d1 of
                  (Inl err, d2) \<Rightarrow>
                    if err = ErrNoRows then INSERT_like (fault fs 2) Post userID postID True d2
                    else (Some err, d2)
                | (Inr currentVote, d2) \<Rightarrow>
                    if Valid currentVote \<and> Bool currentVote
                      then DELETE_like (fault fs 2) Post userID postID d2
                    else UPDATE_like (fault fs 2) Post userID postID True d2))"

definition DislikePost :: "bool list \<Rightarrow> db \<Rightarrow> int \<Rightarrow> int \<Rightarrow> error option \<times> db" where
  "DislikePost fs d userID postID =
     (case postExists (fault fs 0) d postID of
        (Inl err, d1) \<Rightarrow> (Some (DatabaseError err), d1)
      | (Inr exists, d1) \<Rightarrow>
          if \<not> exists then (Some PostNotFound, d1)
          else (case SELECT_is_like (fault fs 1) Post userID postID d1 of
                  (Inl err, d2) \<Rightarrow>
                    if err = ErrNoRows then INSERT_like (fault fs 2) Post userID postID False d2
                    else (Some err, d2)
                | (Inr currentVote, d2) \<Rightarrow>
                    if Valid currentVote \<and> \<not> Bool currentVote
                      then DELETE_like (fault fs 2) Post userID postID d2
                    else UPDATE_like (fault fs 2) Post userID postID False d2))"

definition LikeComment :: "bool list \<Rightarrow> db \<Rightarrow> int \<Rightarrow> int \<Rightarrow> error option \<times> db" where
  "LikeComment fs d userID commentID =
     (case commentExists (fault fs 0) d commentID of
        (Inl err, d1) \<Rightarrow> (Some (DatabaseError err), d1)
      | (Inr exists, d1) \<Rightarrow>
          if \<not> exists then (Some CommentNotFound, d1)
          else (case SELECT_is_like (fault fs 1) Comment userID commentID d1 of
                  (Inl err, d2) \<Rightarrow>
                    if err = ErrNoRows then INSERT_like (fault fs 2) Comment userID commentID True d2
                    else (Some err, d2)
                | (Inr currentVote, d2) \<Rightarrow>
                    if Valid currentVote \<and> Bool currentVote
                      then DELETE_like (fault fs 2) Comment userID commentID d2
                    else UPDATE_like (fault fs 2) Comment userID commentID True d2))"

definition DislikeComment :: "bool list \<Rightarrow> db \<Rightarrow> int \<Rightarrow> int \<Rightarrow> error option \<times> db" where
  "DislikeComment fs d userID commentID =
     (case commentExists (fault fs 0) d commentID of
        (Inl err, d1) \<Rightarrow> (Some (DatabaseError err), d1)
      | (Inr exists, d1) \<Rightarrow>
          if \<not> exists then (Some CommentNotFound, d1)
          else (case SELECT_is_like (fault fs 1) Comment userID commentID d1 of
                  (Inl err, d2) \<Rightarrow>
                    if err = ErrNoRows then INSERT_like (fault fs 2) Comment userID commentID False d2
                    else (Some err, d2)
                | (Inr currentVote, d2) \<Rightarrow>
                    if Valid currentVote \<and> \<not> Bool currentVote
                      then DELETE_like (fault fs 2) Comment userID commentID d2
                    else UPDATE_like (fault fs 2) Comment userID commentID False d2))"

text \<open>
  The aggregate \<^verbatim>\<open>SUM\<close> of SQL: \<^verbatim>\<open>NULL\<close> over no rows. A query of aggregates with no
  \<^verbatim>\<open>GROUP BY\<close> has exactly one result row. \<^verbatim>\<open>Scan\<close> into an \<^verbatim>\<open>int\<close> fails on
  \<^verbatim>\<open>NULL\<close>; it converts the columns from left to right and stops at the first error.
\<close>

definition sql_SUM :: "int list \<Rightarrow> int option" where
  "sql_SUM xs = (if xs = [] then None else Some (sum_list xs))"

definition GetPostLikeCounts :: "bool list \<Rightarrow> db \<Rightarrow> int \<Rightarrow> (int \<times> int \<times> error option) \<times> db" where
  "GetPostLikeCounts fs d postID =
     (let rows = filter (\<lambda>row. l_target_id row = postID) (post_likes d);
          result = [(sql_SUM (map (\<lambda>row. if l_is_like row = True then 1 else 0) rows),
                     sql_SUM (map (\<lambda>row. if l_is_like row = False then 1 else 0) rows))];
          d1 = sent (Select [Likes Post]) d
      in case QueryRow_Scan (fault fs 0) result of
           Inl err \<Rightarrow> if err = ErrNoRows then ((0, 0, None), d1) else ((0, 0, Some err), d1)
         | Inr (Some likes, Some dislikes) \<Rightarrow> ((likes, dislikes, None), d1)
         | Inr (Some likes, None) \<Rightarrow> ((likes, 0, Some ScanNullError), d1)
         | Inr (None, _) \<Rightarrow> ((0, 0, Some ScanNullError), d1))"

text \<open>The stored vote of a user on a target: the \<^verbatim>\<open>is_like\<close> of the first matching row.\<close>

definition stored_vote :: "target \<Rightarrow> db \<Rightarrow> int \<Rightarrow> int \<Rightarrow> bool option" where
  "stored_vote t d userID targetID =
     (case filter (vote_of userID targetID) (like_rows t d) of
        [] \<Rightarrow> None | row # _ \<Rightarrow> Some (l_is_like row))"

section \<open>Time values and their text in the store\<close>

text \<open>
  A \<^verbatim>\<open>time.Time\<close>: seconds since the Unix epoch, nanoseconds within the second
  (0 to 999999999), and the
  location, which gives the offset from UTC (in seconds, east positive) at an instant.
  \<^verbatim>\<open>time.Now()\<close> returns the clock's reading in the process's local zone; it is an
  argument of the operation that calls it. A \<^verbatim>\<open>time.Duration\<close> counts nanoseconds.
\<close>

type_synonym Location = "int \<Rightarrow> int"

record Time =
  t_sec :: int
  t_nsec :: int
  t_loc :: Location

type_synonym Duration = int

definition Hour :: Duration where
  "Hour = 3600 * 1000000000"

definition Add :: "Time \<Rightarrow> Duration \<Rightarrow> Time" where
  "Add t d =
     (let n = t_nsec t + d
      in t\<lparr>t_sec := t_sec t + n div 1000000000, t_nsec := n mod 1000000000\<rparr>)"

text \<open>
  The zone the repository's Dockerfile and Makefile set, \<^verbatim>\<open>TZ=Asia/Almaty\<close>: five hours
  east of UTC (six before March 2024), with no daylight saving time.
\<close>

definition Asia_Almaty :: Location where
  "Asia_Almaty = (\<lambda>_. 18000)"

text \<open>
  Decimal text. \<^verbatim>\<open>appendInt\<close> is the helper of Go's \<^verbatim>\<open>time\<close> package: a sign for a
  negative number, then the digits, padded with zeros to the given width.
\<close>

definition digit :: "nat \<Rightarrow> char" where
  "digit n = ''0123456789'' ! n"

function decimal :: "int \<Rightarrow> string" where
  "decimal n =
     (if n < 10 then [digit (nat n)] else decimal (n div 10) @ [digit (nat (n mod 10))])"
  by pat_completeness auto
termination
  by (relation "measure nat") auto

declare decimal.simps [simp del]

definition appendInt :: "int \<Rightarrow> nat \<Rightarrow> string" where
  "appendInt x width =
     (let ds = decimal \<bar>x\<bar> in
      (if x < 0 then ''-'' else []) @ replicate (width - length ds) (CHR ''0'') @ ds)"

text \<open>
  The date of the proleptic Gregorian calendar, (year, month, day), that lies the given
  number of days after 1 January 1970; it is the calendar of Go and of SQLite.
\<close>

definition civil :: "int \<Rightarrow> int \<times> int \<times> int" where
  "civil days =
     (let z = days + 719468;
          era = z div 146097;
          doe = z mod 146097;
          yoe = (doe - doe div 1460 + doe div 36524 - doe div 146096) div 365;
          doy = doe - (365 * yoe + yoe div 4 - yoe div 100);
          mp = (5 * doy + 2) div 153;
          d = doy - (153 * mp + 2) div 5 + 1;
          m = (if mp < 10 then mp + 3 else mp - 9);
          y = yoe + era * 400 + (if m \<le> 2 then 1 else 0)
      in (y, m, d))"

text \<open>
  The text \<^verbatim>\<open>YYYY-MM-DD HH:MM:SS\<close> of a clock that reads \<open>wall\<close> seconds after
  1970-01-01 00:00:00.
\<close>

definition clock_text :: "int \<Rightarrow> string" where
  "clock_text wall =
     (case civil (wall div 86400) of (y, m, d) \<Rightarrow>
        let s = wall mod 86400 in
        appendInt y 4 @ ''-'' @ appendInt m 2 @ ''-'' @ appendInt d 2 @ '' ''
        @ appendInt (s div 3600) 2 @ '':'' @ appendInt (s mod 3600 div 60) 2 @ '':''
        @ appendInt (s mod 60) 2)"

text \<open>
  The driver (go-sqlite3) binds a \<^verbatim>\<open>time.Time\<close> argument as the text
  \<^verbatim>\<open>t.Format("2006-01-02 15:04:05.999999999-07:00")\<close>: the date and time of day in the
  value's own location, the fraction of the second without its trailing zeros (nothing when
  it is zero), and the location's offset as \<^verbatim>\<open>+hh:mm\<close> or \<^verbatim>\<open>-hh:mm\<close>.
\<close>

definition appendNano :: "int \<Rightarrow> string" where
  "appendNano nanosec =
     (if nanosec = 0 then []
      else CHR ''.'' # rev (dropWhile (\<lambda>c. c = CHR ''0'') (rev (appendInt nanosec 9))))"

definition appendZone :: "int \<Rightarrow> string" where
  "appendZone offset =
     (let zone = (if offset < 0 then - ((- offset) div 60) else offset div 60);
          sign = (if zone < 0 then ''-'' else ''+'');
          zone = \<bar>zone\<bar>
      in sign @ appendInt (zone div 60) 2 @ '':'' @ appendInt (zone mod 60) 2)"

definition Format_SQLiteTimestamp :: "Time \<Rightarrow> string" where
  "Format_SQLiteTimestamp t =
     (let offset = t_loc t (t_sec t)
      in clock_text (t_sec t + offset) @ appendNano (t_nsec t) @ appendZone offset)"

text \<open>
  SQLite's \<^verbatim>\<open>CURRENT_TIMESTAMP\<close>: the text \<^verbatim>\<open>YYYY-MM-DD HH:MM:SS\<close> of the current time
  in UTC. The argument is the database's clock, in seconds since the Unix epoch.
\<close>

definition CURRENT_TIMESTAMP :: "int \<Rightarrow> string" where
  "CURRENT_TIMESTAMP now = clock_text now"

text \<open>
  The comparison \<^verbatim>\<open>a > b\<close> of SQLite on two text values (collation \<^verbatim>\<open>BINARY\<close>): byte
  by byte, and a proper prefix is the smaller. The column \<^verbatim>\<open>expires_at\<close> is declared
  \<^verbatim>\<open>DATETIME\<close>, which gives it numeric affinity, but neither text is a number, so both
  stay text and this is the comparison \<^verbatim>\<open>s.expires_at > CURRENT_TIMESTAMP\<close> makes.
\<close>

fun text_less :: "string \<Rightarrow> string \<Rightarrow> bool" where
  "text_less [] [] = False"
| "text_less [] (y # ys) = True"
| "text_less (x # xs) [] = False"
| "text_less (x # xs) (y # ys) =
     ((of_char x :: nat) < of_char y \<or> (x = y \<and> text_less xs ys))"

definition text_greater :: "string \<Rightarrow> string \<Rightarrow> bool" where
  "text_greater a b = text_less b a"

section \<open>The session manager\<close>

record User =
  ID :: int
  UUID :: string
  Username :: string
  Email :: string
  PasswordHash :: string
  AvatarURL :: string
  IsAdmin :: bool
  CreatedAt :: int
  UpdatedAt :: int

text \<open>\<^verbatim>\<open>DELETE FROM sessions WHERE user_id = ?\<close>\<close>

definition DELETE_sessions :: "bool \<Rightarrow> int \<Rightarrow> db \<Rightarrow> error option \<times> db" where
  "DELETE_sessions failed userID d =
     (let d1 = sent (Delete Sessions) d in
      if failed then (Some DriverError, d1)
      else (None, d1\<lparr>sessions := filter (\<lambda>row. s_user_id row \<noteq> userID) (sessions d)\<rparr>))"

text \<open>
  \<^verbatim>\<open>INSERT INTO sessions (token, user_id, expires_at, created_at) VALUES (?, ?, ?, CURRENT_TIMESTAMP)\<close>,
  under \<^verbatim>\<open>token TEXT UNIQUE\<close> and the foreign key on \<^verbatim>\<open>user_id\<close>. The third argument
  is a \<^verbatim>\<open>time.Time\<close>, which the driver binds as text.
\<close>

definition INSERT_session :: "bool \<Rightarrow> string \<Rightarrow> int \<Rightarrow> Time \<Rightarrow> db \<Rightarrow> error option \<times> db" where
  "INSERT_session failed token userID expiresAt d =
     (let d1 = sent (Insert Sessions) d in
      if failed then (Some DriverError, d1)
      else if userID \<notin> set (map u_id (users d)) then (Some ConstraintFailed, d1)
      else if token \<in> set (map s_token (sessions d)) then (Some ConstraintFailed, d1)
      else (None, d1\<lparr>sessions := sessions d @
              [\<lparr>s_token = token, s_user_id = userID,
                s_expires_at = Format_SQLiteTimestamp expiresAt\<rparr>]\<rparr>))"

text \<open>
  \<^verbatim>\<open>CreateSession\<close>. The argument \<open>rnd\<close> is what the random source gives this call:
  \<open>None\<close> when \<^verbatim>\<open>rand.Read\<close> fails, otherwise the URL-safe base64 text of the 32 random
  bytes (the encoding is one-to-one, so different bytes are different tokens). The argument
  \<open>now\<close> is what \<^verbatim>\<open>time.Now()\<close> returns.
\<close>

definition CreateSession ::
  "bool list \<Rightarrow> string option \<Rightarrow> Time \<Rightarrow> db \<Rightarrow> int \<Rightarrow> (error + string) \<times> db" where
  "CreateSession fs rnd now d userID =
     (case DELETE_sessions (fault fs 0) userID d of
        (Some err, d1) \<Rightarrow> (Inl err, d1)
      | (None, d1) \<Rightarrow>
          (case rnd of
             None \<Rightarrow> (Inl RandError, d1)
           | Some token \<Rightarrow>
               (let expiresAt = Add now (24 * Hour) in
                case INSERT_session (fault fs 1) token userID expiresAt d1 of
                  (Some err, d2) \<Rightarrow> (Inl err, d2)
                | (None, d2) \<Rightarrow> (Inr token, d2))))"

text \<open>
  The query of \<^verbatim>\<open>GetUserByToken\<close>: \<^verbatim>\<open>users\<close> joined with \<^verbatim>\<open>sessions\<close> on
  \<^verbatim>\<open>u.id = s.user_id\<close>, where \<^verbatim>\<open>s.token = ? AND s.expires_at > CURRENT_TIMESTAMP\<close>.
  The argument \<open>now\<close> is the database's clock when the query runs.
\<close>

definition SELECT_user_by_token :: "string \<Rightarrow> int \<Rightarrow> db \<Rightarrow> users_row list" where
  "SELECT_user_by_token token now d =
     concat (map (\<lambda>u. map (\<lambda>s. u)
                   (filter (\<lambda>s. u_id u = s_user_id s \<and> s_token s = token
                              \<and> text_greater (s_expires_at s) (CURRENT_TIMESTAMP now))
                      (sessions d)))
               (users d))"

definition GetUserByToken :: "bool list \<Rightarrow> int \<Rightarrow> db \<Rightarrow> string \<Rightarrow> (error + User) \<times> db" where
  "GetUserByToken fs now d token =
     (let d1 = sent (Select [Users, Sessions]) d in
      case QueryRow_Scan (fault fs 0) (SELECT_user_by_token token now d) of
        Inl err \<Rightarrow> if err = ErrNoRows then (Inl InvalidSession, d1) else (Inl err, d1)
      | Inr row \<Rightarrow>
          (Inr \<lparr>ID = u_id row, UUID = u_uuid row, Username = u_username row, Email = u_email row,
                PasswordHash = [], 
                AvatarURL = (case u_avatar_url row of Some a \<Rightarrow> a | None \<Rightarrow> []),
                IsAdmin = u_is_admin row, CreatedAt = u_created_at row, UpdatedAt = 0\<rparr>, d1))"

text \<open>
  \<open>n\<close> calls of \<^verbatim>\<open>CreateSession\<close> for one user, one after the other; each call has its
  own driver outcomes, random token and time. The result is the tokens returned, in order,
  or the error of the first call that fails.
\<close>

fun CreateSession_calls ::
  "(bool list \<times> string option \<times> Time) list \<Rightarrow> db \<Rightarrow> int \<Rightarrow> (error + string list) \<times> db" where
  "CreateSession_calls [] d userID = (Inr [], d)"
| "CreateSession_calls ((fs, rnd, now) # calls) d userID =
     (case CreateSession fs rnd now d userID of
        (Inl err, d1) \<Rightarrow> (Inl err, d1)
      | (Inr token, d1) \<Rightarrow>
          (case CreateSession_calls calls d1 userID of
             (Inl err, d2) \<Rightarrow> (Inl err, d2)
           | (Inr tokens, d2) \<Rightarrow> (Inr (token # tokens), d2)))"

section \<open>The auth gate\<close>

text \<open>
  A request carries its cookies, name and value. What a middleware does with it is either a
  redirect, or the call \<^verbatim>\<open>next.ServeHTTP\<close> of the downstream handler, with or without
  a user in the request's context.
\<close>

record request =
  cookies :: "(string \<times> string) list"

datatype outcome = Redirect string nat | Next "User option"

text \<open>\<^verbatim>\<open>r.Cookie(name)\<close>: the first cookie of that name, \<open>None\<close> for \<^verbatim>\<open>ErrNoCookie\<close>.\<close>

definition Cookie :: "request \<Rightarrow> string \<Rightarrow> string option" where
  "Cookie r name = map_of (cookies r) name"

definition StatusSeeOther :: nat where
  "StatusSeeOther = 303"

definition OptionalAuth :: "bool list \<Rightarrow> int \<Rightarrow> db \<Rightarrow> request \<Rightarrow> outcome \<times> db" where
  "OptionalAuth fs now d r =
     (case Cookie r ''session_token'' of
        None \<Rightarrow> (Next None, d)
      | Some cookie \<Rightarrow>
          (case GetUserByToken fs now d cookie of
             (Inl err, d1) \<Rightarrow> (Next None, d1)
           | (Inr user, d1) \<Rightarrow> (Next (Some user), d1)))"

definition RequireAuth :: "bool list \<Rightarrow> int \<Rightarrow> db \<Rightarrow> request \<Rightarrow> outcome \<times> db" where
  "RequireAuth fs now d r =
     (case Cookie r ''session_token'' of
        None \<Rightarrow> (Redirect ''/login'' StatusSeeOther, d)
      | Some cookie \<Rightarrow>
          (case GetUserByToken fs now d cookie of
             (Inl err, d1) \<Rightarrow> (Redirect ''/login'' StatusSeeOther, d1)
           | (Inr user, d1) \<Rightarrow> (Next (Some user), d1)))"

text \<open>The session rows of the other users: what \<^verbatim>\<open>CreateSession\<close> leaves in place.\<close>

definition other_sessions :: "int \<Rightarrow> db \<Rightarrow> sessions_row list" where
  "other_sessions userID d = filter (\<lambda>row. s_user_id row \<noteq> userID) (sessions d)"

section \<open>A concrete store\<close>

text \<open>
  A small database to run the operations on: the administrator that the migrations
  insert, one post, one comment, no session and no vote.
\<close>

definition sample_db :: db where
  "sample_db =
     \<lparr> users = [\<lparr>u_id = 1, u_uuid = ''550e8400-e29b-41d4-a716-446655440000'',
                 u_username = ''admin'', u_email = ''admin@forum.local'',
                 u_avatar_url = None, u_is_admin = True, u_created_at = 0\<rparr>],
       sessions = [],
       posts = [10],
       comments = [20],
       post_likes = [],
       comment_likes = [],
       trace = [] \<rparr>"

section \<open>Properties of the validators\<close>

text \<open>
  Claim C4. \<^verbatim>\<open>ValidatePassword\<close> accepts a password exactly when it contains no space,
  its number of code points is between 8 and 128, and it contains an uppercase letter, a
  lowercase letter, a digit, and a character that is neither a letter, a digit nor
  white space.
\<close>

theorem ValidatePassword_accepts_iff:
  "fst (ValidatePassword U p) \<longleftrightarrow>
     (32 \<notin> set p \<and> 8 \<le> length p \<and> length p \<le> 128
      \<and> (\<exists>r \<in> set p. IsUpper U r) \<and> (\<exists>r \<in> set p. IsLower U r)
      \<and> (\<exists>r \<in> set p. IsDigit U r)
      \<and> (\<exists>r \<in> set p. \<not> IsLetter U r \<and> \<not> IsDigit U r \<and> \<not> IsSpace U r))"
  by (auto simp: ValidatePassword_def Let_def RuneCountInString_def Contains_def list_ex_iff)

theorem ValidatePassword_accepts_iff_witness:
  "fst (ValidatePassword sample_unicode (runes ''Password123!''))
   \<and> \<not> fst (ValidatePassword sample_unicode (runes ''Pass word123!''))
   \<and> \<not> fst (ValidatePassword sample_unicode (runes ''password123!''))"
  using ValidatePassword_accepts_iff [of sample_unicode "runes ''Password123!''"]
    ValidatePassword_accepts_iff [of sample_unicode "runes ''Pass word123!''"]
    ValidatePassword_accepts_iff [of sample_unicode "runes ''password123!''"]
  by (simp add: runes_def sample_unicode_def)


subsection \<open>Evaluation lemmas\<close>

lemma isControlChar_simp:
  "isControlChar r =
     (r \<le> 8 \<or> (11 \<le> r \<and> r \<le> 12) \<or> (14 \<le> r \<and> r \<le> 31) \<or> (127 \<le> r \<and> r \<le> 159))"
  by (simp add: isControlChar_def controlCharRanges_def)

lemma isDangerousUnicode_simp:
  "isDangerousUnicode r =
     ((0x300 \<le> r \<and> r \<le> 0x36F) \<or> (0x1AB0 \<le> r \<and> r \<le> 0x1AFF) \<or> (0x1DC0 \<le> r \<and> r \<le> 0x1DFF)
      \<or> (0x20D0 \<le> r \<and> r \<le> 0x20FF) \<or> (0xFE20 \<le> r \<and> r \<le> 0xFE2F) \<or> (0x200B \<le> r \<and> r \<le> 0x200D)
      \<or> (0x2060 \<le> r \<and> r \<le> 0x2064) \<or> r = 0xFEFF)"
  by (auto simp add: isDangerousUnicode_def dangerousUnicodeRanges_def)

lemma isCombiningChar_sample: "isCombiningChar sample_unicode r = (0x300 \<le> r \<and> r \<le> 0x36F)"
  by (simp add: isCombiningChar_def sample_unicode_def)

lemma IsSpace_sample: "IsSpace sample_unicode r = ((9 \<le> r \<and> r \<le> 13) \<or> r = 32)"
  by (simp add: sample_unicode_def)

lemmas sample_eval = runes_def CleanText_def isControlChar_simp isCombiningChar_sample
  isDangerousUnicode_simp maxCombining_def normalizedTitle_def normalizedContent_def Let_def
  ReplaceAll1_def collapseSpaces.simps TrimSpace_def IsSpace_sample ValidateTextSafety_def
  maxConsecutiveCombining_def Count_def Contains_def RuneCountInString_def

subsection \<open>The cap on combining marks\<close>

text \<open>
  Claim C5 says that no run of more than 2 combining marks remains in the output of
  \<^verbatim>\<open>CleanText\<close>. The loop resets \<^verbatim>\<open>combiningCount\<close> on every rune that is not a
  combining mark, before it decides whether that rune is dropped as dangerous. A dropped
  rune between two pairs of marks therefore joins them: on the input
  e, U+0301, U+0301, U+200B, U+0301, U+0301 the output is e followed by four combining
  marks. The statement holds for every table that classes U+0301 as a combining mark and
  e and U+200B not, as Go's tables do.
\<close>

theorem CleanText_run_survives_dropped_rune:
  assumes "isCombiningChar U 0x301" and "\<not> isCombiningChar U 0x65"
    and "\<not> isCombiningChar U 0x200B"
  shows "CleanText U [0x65, 0x301, 0x301, 0x200B, 0x301, 0x301] = [0x65, 0x301, 0x301, 0x301, 0x301]
     \<and> combiningRunAt U (CleanText U [0x65, 0x301, 0x301, 0x200B, 0x301, 0x301]) 1 4"
proof -
  have "CleanText U [0x65, 0x301, 0x301, 0x200B, 0x301, 0x301] = [0x65, 0x301, 0x301, 0x301, 0x301]"
    using assms
    by (simp add: CleanText_def isControlChar_simp isDangerousUnicode_simp maxCombining_def)
  then show ?thesis using assms(1) by (simp add: combiningRunAt_def)
qed

theorem CleanText_run_survives_dropped_rune_witness:
  "isCombiningChar sample_unicode 0x301 \<and> \<not> isCombiningChar sample_unicode 0x65
   \<and> \<not> isCombiningChar sample_unicode 0x200B
   \<and> CleanText sample_unicode [0x65, 0x301, 0x301, 0x200B, 0x301, 0x301]
       = [0x65, 0x301, 0x301, 0x301, 0x301]"
proof -
  have h: "isCombiningChar sample_unicode 0x301" "\<not> isCombiningChar sample_unicode 0x65"
    "\<not> isCombiningChar sample_unicode 0x200B"
    by (simp_all add: isCombiningChar_sample)
  show ?thesis using h CleanText_run_survives_dropped_rune [OF h] by simp
qed

subsection \<open>The screen for long runs of combining marks\<close>

lemma ValidateTextSafety_loop_run:
  "list_all (isCombiningChar U) run \<Longrightarrow> run \<noteq> []
   \<Longrightarrow> c + length run > maxConsecutiveCombining
   \<Longrightarrow> ValidateTextSafety_loop U c (run @ post)"
proof (induction run arbitrary: c)
  case Nil
  then show ?case by simp
next
  case (Cons r run)
  show ?case
  proof (cases "c + 1 > maxConsecutiveCombining")
    case True
    then show ?thesis using Cons.prems by simp
  next
    case False
    then have "run \<noteq> []" using Cons.prems by auto
    then have "ValidateTextSafety_loop U (c + 1) (run @ post)"
      using Cons.IH [of "c + 1"] Cons.prems by simp
    then show ?thesis using Cons.prems by simp
  qed
qed

lemma ValidateTextSafety_loop_window:
  "combiningRunAt U s i 6 \<Longrightarrow> ValidateTextSafety_loop U c s"
proof (induction s arbitrary: i c)
  case Nil
  then show ?case by (simp add: combiningRunAt_def)
next
  case (Cons r rest)
  show ?case
  proof (cases i)
    case 0
    let ?s = "r # rest"
    have run: "list_all (isCombiningChar U) (take 6 ?s)" and len: "length (take 6 ?s) = 6"
      using Cons.prems 0 by (auto simp: combiningRunAt_def)
    have "take 6 ?s \<noteq> []" using len by auto
    then have "ValidateTextSafety_loop U c (take 6 ?s @ drop 6 ?s)"
      using ValidateTextSafety_loop_run [OF run, of c "drop 6 ?s"] len
      by (simp add: maxConsecutiveCombining_def)
    then show ?thesis by (simp only: append_take_drop_id)
  next
    case (Suc j)
    then have "combiningRunAt U rest j 6" using Cons.prems by (simp add: combiningRunAt_def)
    then have "ValidateTextSafety_loop U c' rest" for c' using Cons.IH by blast
    then show ?thesis by simp
  qed
qed

lemma moreThan5Combining_rejected:
  assumes "moreThan5Combining U s"
  shows "ValidateTextSafety U s =
    (False, ''Text contains excessive special characters that may break display'')"
proof -
  from assms obtain i where "i < length s" "combiningRunAt U s i 6"
    by (auto simp: moreThan5Combining_def list_ex_iff)
  then have "s \<noteq> []" "ValidateTextSafety_loop U 0 s"
    using ValidateTextSafety_loop_window by auto
  then show ?thesis by (simp add: ValidateTextSafety_def)
qed

text \<open>
  Claim C6, as stated, fails: every validator cleans its input before it screens it, and
  \<^verbatim>\<open>CleanText\<close> cuts a plain run of six combining marks down to two. The input
  abcdefghij followed by six U+0301 holds more than 5 consecutive combining marks; it is
  accepted as a title, as a post content and as a comment, and as a username it is rejected
  for its characters, not for excessive special characters.
\<close>

theorem long_run_input_not_rejected:
  "moreThan5Combining sample_unicode (runes ''abcdefghij'' @ replicate 6 0x301)
   \<and> ValidatePostTitle sample_unicode (runes ''abcdefghij'' @ replicate 6 0x301) = (True, [])
   \<and> ValidatePostContent sample_unicode (runes ''abcdefghij'' @ replicate 6 0x301) = (True, [])
   \<and> ValidateCommentContent sample_unicode (runes ''abcdefghij'' @ replicate 6 0x301) = (True, [])
   \<and> ValidateUsername sample_unicode (runes ''abcdefghij'' @ replicate 6 0x301)
       = (False, ''Username can only contain letters, numbers, underscores, and hyphens'')"
proof -
  let ?s = "runes ''abcdefghij'' @ replicate 6 0x301"
  have s: "?s = [97,98,99,100,101,102,103,104,105,106,0x301,0x301,0x301,0x301,0x301,0x301]"
    by (simp add: runes_def eval_nat_numeral)
  have "combiningRunAt sample_unicode ?s 10 6"
    unfolding s by (simp add: combiningRunAt_def isCombiningChar_sample)
  then have m: "moreThan5Combining sample_unicode ?s"
    unfolding moreThan5Combining_def list_ex_iff s by (intro bexI [of _ 10]) simp_all
  have c: "CleanText sample_unicode ?s = [97,98,99,100,101,102,103,104,105,106,0x301,0x301]"
    unfolding s by (simp add: sample_eval)
  have t: "ValidatePostTitle sample_unicode ?s = (True, [])"
    by (simp add: ValidatePostTitle_def normalizedTitle_def c Let_def) (simp add: sample_eval)
  have p: "ValidatePostContent sample_unicode ?s = (True, [])"
    by (simp add: ValidatePostContent_def normalizedContent_def c Let_def) (simp add: sample_eval)
  have k: "ValidateCommentContent sample_unicode ?s = (True, [])"
    by (simp add: ValidateCommentContent_def normalizedContent_def c Let_def) (simp add: sample_eval)
  have u: "ValidateUsername sample_unicode ?s
       = (False, ''Username can only contain letters, numbers, underscores, and hyphens'')"
    by (simp add: ValidateUsername_def c Let_def)
       (simp add: sample_eval validUsername_MatchString_def validUsernameChar_def)
  show ?thesis using m t p k u by simp
qed

text \<open>
  Claim C6, amended: the screen runs on the string the validator has cleaned and
  normalized. When that string holds more than 5 consecutive combining marks and passes the
  validator's check of spaces, which comes first (no space in a username; no leading or
  trailing white space in a title, a content or a comment), the validator rejects with the
  reason of excessive special characters.
\<close>

theorem excessive_reason_on_cleaned_run:
  "(moreThan5Combining U (CleanText U s) \<and> \<not> Contains (CleanText U s) 32 \<longrightarrow>
      ValidateUsername U s
        = (False, ''Text contains excessive special characters that may break display''))
   \<and> (moreThan5Combining U (normalizedTitle U s)
        \<and> normalizedTitle U s = TrimSpace U (normalizedTitle U s) \<longrightarrow>
      ValidatePostTitle U s
        = (False, ''Text contains excessive special characters that may break display''))
   \<and> (moreThan5Combining U (normalizedContent U s)
        \<and> normalizedContent U s = TrimSpace U (normalizedContent U s) \<longrightarrow>
      ValidatePostContent U s
        = (False, ''Text contains excessive special characters that may break display'')
      \<and> ValidateCommentContent U s
        = (False, ''Text contains excessive special characters that may break display''))"
  by (simp add: ValidateUsername_def ValidatePostTitle_def ValidatePostContent_def
      ValidateCommentContent_def Let_def moreThan5Combining_rejected)

theorem excessive_reason_on_cleaned_run_witness:
  "ValidateUsername sample_unicode
      (runes ''abc'' @ [0x301, 0x301, 0x200B, 0x301, 0x301, 0x200B, 0x301, 0x301])
     = (False, ''Text contains excessive special characters that may break display'')
   \<and> ValidatePostTitle sample_unicode
      (runes ''abc'' @ [0x301, 0x301, 0x200B, 0x301, 0x301, 0x200B, 0x301, 0x301])
     = (False, ''Text contains excessive special characters that may break display'')
   \<and> ValidatePostContent sample_unicode
      (runes ''abc'' @ [0x301, 0x301, 0x200B, 0x301, 0x301, 0x200B, 0x301, 0x301])
     = (False, ''Text contains excessive special characters that may break display'')
   \<and> ValidateCommentContent sample_unicode
      (runes ''abc'' @ [0x301, 0x301, 0x200B, 0x301, 0x301, 0x200B, 0x301, 0x301])
     = (False, ''Text contains excessive special characters that may break display'')"
proof -
  let ?s = "runes ''abc'' @ [0x301, 0x301, 0x200B, 0x301, 0x301, 0x200B, 0x301, 0x301]"
  let ?c = "[97, 98, 99, 0x301, 0x301, 0x301, 0x301, 0x301, 0x301] :: rune list"
  have c: "CleanText sample_unicode ?s = ?c" by (simp add: sample_eval)
  have t: "normalizedTitle sample_unicode ?s = ?c"
    by (simp add: normalizedTitle_def c Let_def) (simp add: sample_eval)
  have n: "normalizedContent sample_unicode ?s = ?c"
    by (simp add: normalizedContent_def c Let_def) (simp add: sample_eval)
  have "combiningRunAt sample_unicode ?c 3 6"
    by (simp add: combiningRunAt_def isCombiningChar_sample)
  then have m: "moreThan5Combining sample_unicode ?c"
    unfolding moreThan5Combining_def list_ex_iff by (intro bexI [of _ 3]) simp_all
  have sp: "\<not> Contains ?c 32" by (simp add: Contains_def)
  have tr: "?c = TrimSpace sample_unicode ?c" by (simp add: TrimSpace_def IsSpace_sample)
  show ?thesis
    using excessive_reason_on_cleaned_run [of sample_unicode ?s] m sp tr
    unfolding c t n by blast
qed


subsection \<open>Titles that are empty or only spaces\<close>

lemma TrimSpace_Nil: "TrimSpace U [] = []"
  by (simp add: TrimSpace_def)

text \<open>
  Claim C7, as stated, fails: the check of leading and trailing white space comes first in
  \<^verbatim>\<open>ValidatePostTitle\<close>. A title of three spaces, and one of a line feed and a carriage
  return, normalize to a single space, which trims to the empty string; both are rejected
  with the reason of boundary spaces, not with \<^verbatim>\<open>Title is required\<close>.
\<close>

theorem ValidatePostTitle_spaces_only_boundary_reason:
  "TrimSpace sample_unicode (normalizedTitle sample_unicode (runes ''   '')) = []
   \<and> ValidatePostTitle sample_unicode (runes ''   '')
       = (False, ''Title cannot have spaces at the beginning or end'')
   \<and> TrimSpace sample_unicode (normalizedTitle sample_unicode [10, 13]) = []
   \<and> ValidatePostTitle sample_unicode [10, 13]
       = (False, ''Title cannot have spaces at the beginning or end'')"
proof -
  have a: "normalizedTitle sample_unicode (runes ''   '') = [32]"
    by (simp add: sample_eval)
  have b: "normalizedTitle sample_unicode [10, 13] = [32]"
    by (simp add: sample_eval)
  have c: "TrimSpace sample_unicode [32] = []" by (simp add: TrimSpace_def IsSpace_sample)
  show ?thesis by (simp add: ValidatePostTitle_def a b c)
qed

text \<open>
  Claim C7, amended: \<^verbatim>\<open>ValidatePostTitle\<close> rejects with \<^verbatim>\<open>Title is required\<close> exactly
  when the cleaned and normalized title is the empty string itself (the empty input, or
  one of stripped characters only). When that string is not empty but trims to the empty
  string (spaces or line breaks only), the title is rejected with the reason of boundary
  spaces.
\<close>

theorem ValidatePostTitle_required_iff_empty:
  "(ValidatePostTitle U t = (False, ''Title is required'') \<longleftrightarrow> normalizedTitle U t = [])
   \<and> (normalizedTitle U t \<noteq> [] \<and> TrimSpace U (normalizedTitle U t) = [] \<longrightarrow>
        ValidatePostTitle U t = (False, ''Title cannot have spaces at the beginning or end''))"
proof -
  have a: "ValidatePostTitle U t = (False, ''Title is required'')" if "normalizedTitle U t = []"
    using that
    by (simp add: ValidatePostTitle_def TrimSpace_Nil ValidateTextSafety_def RuneCountInString_def)
  have b: "normalizedTitle U t = []" if "ValidatePostTitle U t = (False, ''Title is required'')"
    using that
    by (simp add: ValidatePostTitle_def Let_def ValidateTextSafety_def RuneCountInString_def
        split: if_splits)
  have c: "ValidatePostTitle U t = (False, ''Title cannot have spaces at the beginning or end'')"
    if "normalizedTitle U t \<noteq> []" "TrimSpace U (normalizedTitle U t) = []"
    using that by (simp add: ValidatePostTitle_def Let_def)
  show ?thesis using a b c by blast
qed

theorem ValidatePostTitle_required_iff_empty_witness:
  "normalizedTitle sample_unicode [] = []
   \<and> ValidatePostTitle sample_unicode [] = (False, ''Title is required'')
   \<and> normalizedTitle sample_unicode [0, 7] = []
   \<and> ValidatePostTitle sample_unicode [0, 7] = (False, ''Title is required'')
   \<and> normalizedTitle sample_unicode (runes ''   '') \<noteq> []
   \<and> TrimSpace sample_unicode (normalizedTitle sample_unicode (runes ''   '')) = []
   \<and> ValidatePostTitle sample_unicode (runes ''   '')
       = (False, ''Title cannot have spaces at the beginning or end'')"
proof -
  have a: "normalizedTitle sample_unicode [] = []" by (simp add: sample_eval)
  have a': "normalizedTitle sample_unicode [0, 7] = []" by (simp add: sample_eval)
  have b: "normalizedTitle sample_unicode (runes ''   '') = [32]" by (simp add: sample_eval)
  have c: "TrimSpace sample_unicode [32] = []" by (simp add: TrimSpace_def IsSpace_sample)
  show ?thesis
    using ValidatePostTitle_required_iff_empty [of sample_unicode "[]"]
      ValidatePostTitle_required_iff_empty [of sample_unicode "[0, 7]"]
      ValidatePostTitle_required_iff_empty [of sample_unicode "runes ''   ''"]
    unfolding a a' b c by simp
qed

subsection \<open>Usernames\<close>

lemma CleanText_loop_keeps_space:
  "\<not> isCombiningChar U 32 \<Longrightarrow> 32 \<in> set s \<Longrightarrow> 32 \<in> set (CleanText_loop U c s)"
proof (induction s arbitrary: c)
  case Nil
  then show ?case by simp
next
  case (Cons r rest)
  show ?case
  proof (cases "r = 32")
    case True
    then show ?thesis using Cons.prems(1) by (simp add: isControlChar_simp isDangerousUnicode_simp)
  next
    case False
    then have "32 \<in> set rest" using Cons.prems by simp
    then have "32 \<in> set (CleanText_loop U c' rest)" for c' using Cons.IH Cons.prems(1) by blast
    then show ?thesis by simp
  qed
qed

text \<open>
  Claim C8, as stated, fails: \<^verbatim>\<open>ValidateUsername\<close> checks the cleaned string, not its
  input. The input abc followed by U+0007 is accepted although U+0007 is no letter, digit,
  underscore or hyphen; fifty letters a followed by U+200B are accepted although the input
  has 51 code points.
\<close>

theorem ValidateUsername_accepts_stripped_rune:
  "fst (ValidateUsername sample_unicode (runes ''abc'' @ [7]))
   \<and> \<not> list_all validUsernameChar (runes ''abc'' @ [7])
   \<and> fst (ValidateUsername sample_unicode (replicate 50 97 @ [0x200B]))
   \<and> length (replicate 50 97 @ [0x200B]) = 51"
proof -
  have c1: "CleanText sample_unicode (runes ''abc'' @ [7]) = [97, 98, 99]"
    by (simp add: sample_eval)
  have l: "CleanText_loop sample_unicode 0 (replicate n 97 @ [0x200B]) = replicate n 97" for n
    by (induction n) (simp_all add: sample_eval)
  have c2: "CleanText sample_unicode (replicate 50 97 @ [0x200B]) = replicate 50 97"
    using l [of 50] by (simp add: CleanText_def)
  have u1: "fst (ValidateUsername sample_unicode (runes ''abc'' @ [7]))"
    by (simp add: ValidateUsername_def c1 Let_def)
       (simp add: sample_eval validUsername_MatchString_def validUsernameChar_def)
  have s: "ValidateTextSafety sample_unicode (replicate 50 97) = (True, [])"
  proof -
    have "\<not> ValidateTextSafety_loop sample_unicode 0 (replicate n 97)" for n
      by (induction n) (simp_all add: isCombiningChar_sample)
    then show ?thesis by (simp add: ValidateTextSafety_def Count_def Contains_def)
  qed
  have u2: "fst (ValidateUsername sample_unicode (replicate 50 97 @ [0x200B]))"
    by (simp add: ValidateUsername_def c2 s Let_def Contains_def RuneCountInString_def
        validUsername_MatchString_def validUsernameChar_def list_all_iff)
  have n: "\<not> list_all validUsernameChar (runes ''abc'' @ [7])"
    by (simp add: runes_def validUsernameChar_def)
  show ?thesis using u1 u2 n by simp
qed

text \<open>
  Claim C8, amended: for every string \<open>s\<close> that \<^verbatim>\<open>ValidateUsername\<close> accepts, \<open>s\<close>
  contains no space (the tables not classing the space as a combining mark, as Go's do
  not), and the cleaned string \<^verbatim>\<open>CleanText(s)\<close> contains no space, has between 3 and 50
  code points and consists only of ASCII letters, digits, underscore and hyphen.
\<close>

theorem ValidateUsername_accepted_cleaned_form:
  assumes "fst (ValidateUsername U s)" and "\<not> isCombiningChar U 32"
  shows "32 \<notin> set s \<and> 32 \<notin> set (CleanText U s)
     \<and> 3 \<le> length (CleanText U s) \<and> length (CleanText U s) \<le> 50
     \<and> (\<forall>r \<in> set (CleanText U s). validUsernameChar r)"
proof -
  let ?c = "CleanText U s"
  have nosp: "32 \<notin> set ?c" and len: "3 \<le> length ?c" "length ?c \<le> 50"
    and ok: "validUsername_MatchString ?c"
    using assms(1)
    by (auto simp: ValidateUsername_def Let_def Contains_def RuneCountInString_def split: if_splits)
  have "32 \<notin> set s"
  proof
    assume "32 \<in> set s"
    then have "s \<noteq> []" "32 \<in> set (CleanText_loop U 0 s)"
      using CleanText_loop_keeps_space assms(2) by auto
    then show False using nosp by (simp add: CleanText_def)
  qed
  then show ?thesis using nosp len ok
    by (simp add: validUsername_MatchString_def list_all_iff)
qed

theorem ValidateUsername_accepted_cleaned_form_witness:
  "fst (ValidateUsername sample_unicode (runes ''ab_c-9'' @ [7]))
   \<and> \<not> isCombiningChar sample_unicode 32
   \<and> 32 \<notin> set (runes ''ab_c-9'' @ [7])
   \<and> CleanText sample_unicode (runes ''ab_c-9'' @ [7]) = runes ''ab_c-9''
   \<and> list_all validUsernameChar (CleanText sample_unicode (runes ''ab_c-9'' @ [7]))"
proof -
  have c: "CleanText sample_unicode (runes ''ab_c-9'' @ [7]) = runes ''ab_c-9''"
    by (simp add: sample_eval)
  have u: "fst (ValidateUsername sample_unicode (runes ''ab_c-9'' @ [7]))"
    by (simp add: ValidateUsername_def c Let_def)
       (simp add: sample_eval validUsername_MatchString_def validUsernameChar_def)
  have m: "\<not> isCombiningChar sample_unicode 32" by (simp add: isCombiningChar_sample)
  show ?thesis
    using ValidateUsername_accepted_cleaned_form [OF u m] u m c by (simp add: list_all_iff)
qed


section \<open>Properties of the store operations\<close>

subsection \<open>The statements, in closed form\<close>

lemma fault_Nil [simp]: "fault [] i = False"
  by (simp add: fault_def)

lemma take_1_filter_eq:
  "take (Suc 0) (map (\<lambda>_. c) (filter (\<lambda>i. i = x) xs)) = (if x \<in> set xs then [c] else [])"
  by (induction xs) auto

lemma SELECT_1_eq:
  "SELECT_1 failed t targetID d =
     (if failed then Inl DriverError
      else if targetID \<in> set (targets t d) then Inr 1 else Inl ErrNoRows,
      sent (Select [Targets t]) d)"
  by (simp add: SELECT_1_def QueryRow_Scan_def take_1_filter_eq)


lemma postExists_eq:
  "postExists failed d postID =
     (if failed then Inl DriverError else Inr (postID \<in> set (posts d)),
      sent (Select [Targets Post]) d)"
  by (simp add: postExists_def SELECT_1_eq)

lemma commentExists_eq:
  "commentExists failed d commentID =
     (if failed then Inl DriverError else Inr (commentID \<in> set (comments d)),
      sent (Select [Targets Comment]) d)"
  by (simp add: commentExists_def SELECT_1_eq)

lemma SELECT_is_like_eq:
  "SELECT_is_like failed t userID targetID d =
     (if failed then Inl DriverError
      else case stored_vote t d userID targetID of
             None \<Rightarrow> Inl ErrNoRows
           | Some b \<Rightarrow> Inr \<lparr>Bool = b, Valid = True\<rparr>,
      sent (Select [Likes t]) d)"
  by (cases "filter (vote_of userID targetID) (like_rows t d)")
     (simp_all add: SELECT_is_like_def QueryRow_Scan_def stored_vote_def)

lemma sent_tables [simp]:
  "users (sent q d) = users d" "sessions (sent q d) = sessions d"
  "posts (sent q d) = posts d" "comments (sent q d) = comments d"
  "post_likes (sent q d) = post_likes d" "comment_likes (sent q d) = comment_likes d"
  "trace (sent q d) = trace d @ [q]"
  by (simp_all add: sent_def)

lemma sent_targets [simp]: "targets t (sent q d) = targets t d"
  by (cases t) simp_all

lemma sent_like_rows [simp]: "like_rows t (sent q d) = like_rows t d"
  by (cases t) simp_all

lemma sent_stored_vote [simp]: "stored_vote t (sent q d) u p = stored_vote t d u p"
  by (simp add: stored_vote_def)

lemma likes_update_tables [simp]:
  "users (likes_update t f d) = users d" "sessions (likes_update t f d) = sessions d"
  "posts (likes_update t f d) = posts d" "comments (likes_update t f d) = comments d"
  "trace (likes_update t f d) = trace d"
  by (cases t; simp)+

lemma likes_update_targets [simp]: "targets t' (likes_update t f d) = targets t' d"
  by (cases t'; cases t; simp)

lemma likes_update_like_rows [simp]: "like_rows t (likes_update t f d) = f (like_rows t d)"
  by (cases t; simp)

lemma likes_update_other [simp]:
  "comment_likes (likes_update Post f d) = comment_likes d"
  "post_likes (likes_update Comment f d) = post_likes d"
  by simp_all

lemma stored_vote_None_iff:
  "stored_vote t d u p = None \<longleftrightarrow> filter (vote_of u p) (like_rows t d) = []"
  by (cases "filter (vote_of u p) (like_rows t d)") (simp_all add: stored_vote_def)

lemma stored_vote_None_list_ex:
  "stored_vote t d u p = None \<Longrightarrow> \<not> list_ex (vote_of u p) (like_rows t d)"
  by (simp add: stored_vote_None_iff filter_empty_conv list_ex_iff)

lemma stored_vote_None_keep:
  "stored_vote t d u p = None \<Longrightarrow> filter (\<lambda>row. \<not> vote_of u p row) (like_rows t d) = like_rows t d"
  by (simp add: stored_vote_None_iff filter_empty_conv filter_id_conv)

lemma filter_vote_update:
  "filter (vote_of u p) (map (\<lambda>row. if vote_of u p row then row\<lparr>l_is_like := b\<rparr> else row) rows)
     = map (\<lambda>row. row\<lparr>l_is_like := b\<rparr>) (filter (vote_of u p) rows)"
  by (induction rows) (simp_all add: vote_of_def)

lemma stored_vote_insert:
  "stored_vote t d u p = None \<Longrightarrow>
   stored_vote t (likes_update t (\<lambda>rows. rows @ [\<lparr>l_user_id = u, l_target_id = p, l_is_like = b\<rparr>]) d) u p = Some b"
  by (simp add: stored_vote_None_iff) (simp add: stored_vote_def vote_of_def)

lemma stored_vote_delete:
  "stored_vote t (likes_update t (filter (\<lambda>row. \<not> vote_of u p row)) d) u p = None"
  by (simp add: stored_vote_None_iff)

lemma stored_vote_update:
  "stored_vote t d u p = Some b' \<Longrightarrow>
   stored_vote t (likes_update t (map (\<lambda>row. if vote_of u p row then row\<lparr>l_is_like := b\<rparr> else row)) d) u p = Some b"
  by (cases "filter (vote_of u p) (like_rows t d)") (simp_all add: stored_vote_def filter_vote_update)

lemma INSERT_like_ok:
  assumes "u \<in> set (map u_id (users d))" "p \<in> set (targets t d)" "stored_vote t d u p = None"
  shows "INSERT_like False t u p b d =
    (None, likes_update t (\<lambda>rows. rows @ [\<lparr>l_user_id = u, l_target_id = p, l_is_like = b\<rparr>])
       (sent (Insert (Likes t)) d))"
  using assms stored_vote_None_list_ex [OF assms(3)] by (simp add: INSERT_like_def Let_def)

lemma LikePost_closed:
  assumes "postID \<in> set (posts d)"
  shows "LikePost [] d userID postID =
    (case stored_vote Post d userID postID of
       None \<Rightarrow> INSERT_like False Post userID postID True (sent (Select [Likes Post]) (sent (Select [Targets Post]) d))
     | Some b \<Rightarrow> if b then DELETE_like False Post userID postID (sent (Select [Likes Post]) (sent (Select [Targets Post]) d))
                else UPDATE_like False Post userID postID True (sent (Select [Likes Post]) (sent (Select [Targets Post]) d)))"
proof (cases "stored_vote Post d userID postID")
  case None
  then show ?thesis using assms by (simp add: LikePost_def postExists_eq SELECT_is_like_eq)
next
  case (Some b)
  then show ?thesis using assms by (simp add: LikePost_def postExists_eq SELECT_is_like_eq)
qed

lemma DislikePost_closed:
  assumes "postID \<in> set (posts d)"
  shows "DislikePost [] d userID postID =
    (case stored_vote Post d userID postID of
       None \<Rightarrow> INSERT_like False Post userID postID False (sent (Select [Likes Post]) (sent (Select [Targets Post]) d))
     | Some b \<Rightarrow> if \<not> b then DELETE_like False Post userID postID (sent (Select [Likes Post]) (sent (Select [Targets Post]) d))
                else UPDATE_like False Post userID postID False (sent (Select [Likes Post]) (sent (Select [Targets Post]) d)))"
proof (cases "stored_vote Post d userID postID")
  case None
  then show ?thesis using assms by (simp add: DislikePost_def postExists_eq SELECT_is_like_eq)
next
  case (Some b)
  then show ?thesis using assms by (simp add: DislikePost_def postExists_eq SELECT_is_like_eq)
qed

subsection \<open>The toggle table\<close>

lemma LikePost_none:
  assumes "p \<in> set (posts d)" "u \<in> set (map u_id (users d))" "stored_vote Post d u p = None"
  shows "LikePost [] d u p =
    (None, likes_update Post (\<lambda>rows. rows @ [\<lparr>l_user_id = u, l_target_id = p, l_is_like = True\<rparr>])
       (sent (Insert (Likes Post)) (sent (Select [Likes Post]) (sent (Select [Targets Post]) d))))"
  using assms by (simp add: LikePost_closed INSERT_like_ok)

lemma DislikePost_none:
  assumes "p \<in> set (posts d)" "u \<in> set (map u_id (users d))" "stored_vote Post d u p = None"
  shows "DislikePost [] d u p =
    (None, likes_update Post (\<lambda>rows. rows @ [\<lparr>l_user_id = u, l_target_id = p, l_is_like = False\<rparr>])
       (sent (Insert (Likes Post)) (sent (Select [Likes Post]) (sent (Select [Targets Post]) d))))"
  using assms by (simp add: DislikePost_closed INSERT_like_ok)

lemma LikePost_liked:
  assumes "p \<in> set (posts d)" "stored_vote Post d u p = Some True"
  shows "LikePost [] d u p =
    (None, likes_update Post (filter (\<lambda>row. \<not> vote_of u p row))
       (sent (Delete (Likes Post)) (sent (Select [Likes Post]) (sent (Select [Targets Post]) d))))"
  using assms by (simp add: LikePost_closed DELETE_like_def)

lemma LikePost_disliked:
  assumes "p \<in> set (posts d)" "stored_vote Post d u p = Some False"
  shows "LikePost [] d u p =
    (None, likes_update Post (map (\<lambda>row. if vote_of u p row then row\<lparr>l_is_like := True\<rparr> else row))
       (sent (Update (Likes Post)) (sent (Select [Likes Post]) (sent (Select [Targets Post]) d))))"
  using assms by (simp add: LikePost_closed UPDATE_like_def)

lemma DislikePost_disliked:
  assumes "p \<in> set (posts d)" "stored_vote Post d u p = Some False"
  shows "DislikePost [] d u p =
    (None, likes_update Post (filter (\<lambda>row. \<not> vote_of u p row))
       (sent (Delete (Likes Post)) (sent (Select [Likes Post]) (sent (Select [Targets Post]) d))))"
  using assms by (simp add: DislikePost_closed DELETE_like_def)

lemma DislikePost_liked:
  assumes "p \<in> set (posts d)" "stored_vote Post d u p = Some True"
  shows "DislikePost [] d u p =
    (None, likes_update Post (map (\<lambda>row. if vote_of u p row then row\<lparr>l_is_like := False\<rparr> else row))
       (sent (Update (Likes Post)) (sent (Select [Likes Post]) (sent (Select [Targets Post]) d))))"
  using assms by (simp add: DislikePost_closed UPDATE_like_def)

lemma likes_update_stored_insert:
  "stored_vote t d u p = None \<Longrightarrow>
   stored_vote t (likes_update t (\<lambda>rows. rows @ [\<lparr>l_user_id = u, l_target_id = p, l_is_like = b\<rparr>]) (sent q1 (sent q2 (sent q3 d)))) u p = Some b"
  by (rule stored_vote_insert) simp

lemma likes_update_stored_update:
  "stored_vote t d u p = Some b' \<Longrightarrow>
   stored_vote t (likes_update t (map (\<lambda>row. if vote_of u p row then row\<lparr>l_is_like := b\<rparr> else row)) (sent q1 (sent q2 (sent q3 d)))) u p = Some b"
  by (rule stored_vote_update [where b' = b']) simp

text \<open>
  Claim C1. For a user and a post that exist, on a store that works, \<^verbatim>\<open>LikePost\<close> and
  \<^verbatim>\<open>DislikePost\<close> follow the toggle table. With no vote row, each inserts its row (
  \<^verbatim>\<open>is_like\<close> true, respectively false). With a stored like, \<^verbatim>\<open>LikePost\<close> deletes the
  row and \<^verbatim>\<open>DislikePost\<close> sets it to false. With a stored dislike, \<^verbatim>\<open>DislikePost\<close>
  deletes the row and \<^verbatim>\<open>LikePost\<close> sets it to true. From no vote, Like then Like gives
  back the table as it was, and Like then Dislike leaves a stored dislike.
\<close>

theorem post_vote_toggle_table:
  assumes "postID \<in> set (posts d)" and "userID \<in> set (map u_id (users d))"
  shows
   "(stored_vote Post d userID postID = None \<longrightarrow>
       fst (LikePost [] d userID postID) = None
       \<and> post_likes (snd (LikePost [] d userID postID))
           = post_likes d @ [\<lparr>l_user_id = userID, l_target_id = postID, l_is_like = True\<rparr>]
       \<and> stored_vote Post (snd (LikePost [] d userID postID)) userID postID = Some True
       \<and> fst (DislikePost [] d userID postID) = None
       \<and> post_likes (snd (DislikePost [] d userID postID))
           = post_likes d @ [\<lparr>l_user_id = userID, l_target_id = postID, l_is_like = False\<rparr>]
       \<and> stored_vote Post (snd (DislikePost [] d userID postID)) userID postID = Some False
       \<and> stored_vote Post (snd (LikePost [] (snd (LikePost [] d userID postID)) userID postID))
            userID postID = None
       \<and> post_likes (snd (LikePost [] (snd (LikePost [] d userID postID)) userID postID))
           = post_likes d
       \<and> stored_vote Post (snd (DislikePost [] (snd (LikePost [] d userID postID)) userID postID))
            userID postID = Some False)
    \<and> (stored_vote Post d userID postID = Some True \<longrightarrow>
       fst (LikePost [] d userID postID) = None
       \<and> post_likes (snd (LikePost [] d userID postID))
           = filter (\<lambda>row. \<not> vote_of userID postID row) (post_likes d)
       \<and> stored_vote Post (snd (LikePost [] d userID postID)) userID postID = None
       \<and> fst (DislikePost [] d userID postID) = None
       \<and> post_likes (snd (DislikePost [] d userID postID))
           = map (\<lambda>row. if vote_of userID postID row then row\<lparr>l_is_like := False\<rparr> else row)
               (post_likes d)
       \<and> stored_vote Post (snd (DislikePost [] d userID postID)) userID postID = Some False)
    \<and> (stored_vote Post d userID postID = Some False \<longrightarrow>
       fst (DislikePost [] d userID postID) = None
       \<and> post_likes (snd (DislikePost [] d userID postID))
           = filter (\<lambda>row. \<not> vote_of userID postID row) (post_likes d)
       \<and> stored_vote Post (snd (DislikePost [] d userID postID)) userID postID = None
       \<and> fst (LikePost [] d userID postID) = None
       \<and> post_likes (snd (LikePost [] d userID postID))
           = map (\<lambda>row. if vote_of userID postID row then row\<lparr>l_is_like := True\<rparr> else row)
               (post_likes d)
       \<and> stored_vote Post (snd (LikePost [] d userID postID)) userID postID = Some True)"
proof (intro conjI impI)
  assume none: "stored_vote Post d userID postID = None"
  let ?d1 = "snd (LikePost [] d userID postID)"
  note l = LikePost_none [OF assms none]
  note dl = DislikePost_none [OF assms none]
  show "fst (LikePost [] d userID postID) = None" by (simp add: l)
  show "post_likes ?d1 = post_likes d @ [\<lparr>l_user_id = userID, l_target_id = postID, l_is_like = True\<rparr>]"
    by (simp add: l)
  show s1: "stored_vote Post ?d1 userID postID = Some True"
    unfolding l snd_conv by (rule likes_update_stored_insert [OF none])
  show "fst (DislikePost [] d userID postID) = None" by (simp add: dl)
  show "post_likes (snd (DislikePost [] d userID postID))
      = post_likes d @ [\<lparr>l_user_id = userID, l_target_id = postID, l_is_like = False\<rparr>]"
    by (simp add: dl)
  show "stored_vote Post (snd (DislikePost [] d userID postID)) userID postID = Some False"
    unfolding dl snd_conv by (rule likes_update_stored_insert [OF none])
  have p1: "postID \<in> set (posts ?d1)" using assms(1) by (simp add: l)
  note ll = LikePost_liked [OF p1 s1]
  show "stored_vote Post (snd (LikePost [] ?d1 userID postID)) userID postID = None"
    unfolding ll snd_conv by (rule stored_vote_delete)
  have keep: "filter (\<lambda>row. \<not> vote_of userID postID row) (post_likes d) = post_likes d"
    using stored_vote_None_keep [OF none] by simp
  have new: "vote_of userID postID \<lparr>l_user_id = userID, l_target_id = postID, l_is_like = True\<rparr>"
    by (simp add: vote_of_def)
  show "post_likes (snd (LikePost [] ?d1 userID postID)) = post_likes d"
    unfolding ll snd_conv by (simp add: l keep new)
  note ld = DislikePost_liked [OF p1 s1]
  show "stored_vote Post (snd (DislikePost [] ?d1 userID postID)) userID postID = Some False"
    unfolding ld snd_conv by (rule likes_update_stored_update [OF s1])
next
  assume liked: "stored_vote Post d userID postID = Some True"
  note l = LikePost_liked [OF assms(1) liked]
  note dl = DislikePost_liked [OF assms(1) liked]
  show "fst (LikePost [] d userID postID) = None" by (simp add: l)
  show "post_likes (snd (LikePost [] d userID postID))
      = filter (\<lambda>row. \<not> vote_of userID postID row) (post_likes d)" by (simp add: l)
  show "stored_vote Post (snd (LikePost [] d userID postID)) userID postID = None"
    unfolding l snd_conv by (rule stored_vote_delete)
  show "fst (DislikePost [] d userID postID) = None" by (simp add: dl)
  show "post_likes (snd (DislikePost [] d userID postID))
      = map (\<lambda>row. if vote_of userID postID row then row\<lparr>l_is_like := False\<rparr> else row) (post_likes d)"
    by (simp add: dl)
  show "stored_vote Post (snd (DislikePost [] d userID postID)) userID postID = Some False"
    unfolding dl snd_conv by (rule likes_update_stored_update [OF liked])
next
  assume disliked: "stored_vote Post d userID postID = Some False"
  note l = LikePost_disliked [OF assms(1) disliked]
  note dl = DislikePost_disliked [OF assms(1) disliked]
  show "fst (DislikePost [] d userID postID) = None" by (simp add: dl)
  show "post_likes (snd (DislikePost [] d userID postID))
      = filter (\<lambda>row. \<not> vote_of userID postID row) (post_likes d)" by (simp add: dl)
  show "stored_vote Post (snd (DislikePost [] d userID postID)) userID postID = None"
    unfolding dl snd_conv by (rule stored_vote_delete)
  show "fst (LikePost [] d userID postID) = None" by (simp add: l)
  show "post_likes (snd (LikePost [] d userID postID))
      = map (\<lambda>row. if vote_of userID postID row then row\<lparr>l_is_like := True\<rparr> else row) (post_likes d)"
    by (simp add: l)
  show "stored_vote Post (snd (LikePost [] d userID postID)) userID postID = Some True"
    unfolding l snd_conv by (rule likes_update_stored_update [OF disliked])
qed

theorem post_vote_toggle_table_witness:
  "stored_vote Post sample_db 1 10 = None
   \<and> stored_vote Post (snd (LikePost [] sample_db 1 10)) 1 10 = Some True
   \<and> stored_vote Post (snd (DislikePost [] sample_db 1 10)) 1 10 = Some False
   \<and> stored_vote Post (snd (LikePost [] (snd (LikePost [] sample_db 1 10)) 1 10)) 1 10 = None
   \<and> stored_vote Post (snd (DislikePost [] (snd (LikePost [] sample_db 1 10)) 1 10)) 1 10 = Some False
   \<and> stored_vote Post (snd (DislikePost [] (snd (DislikePost [] sample_db 1 10)) 1 10)) 1 10 = None
   \<and> stored_vote Post (snd (LikePost [] (snd (DislikePost [] sample_db 1 10)) 1 10)) 1 10 = Some True"
proof -
  let ?l = "snd (LikePost [] sample_db 1 10)" and ?d = "snd (DislikePost [] sample_db 1 10)"
  have p: "10 \<in> set (posts sample_db)" and u: "1 \<in> set (map u_id (users sample_db))"
    and n: "stored_vote Post sample_db 1 10 = None"
    by (simp_all add: sample_db_def stored_vote_def)
  note t0 = post_vote_toggle_table [OF p u]
  have pl: "10 \<in> set (posts ?l)" and ul: "1 \<in> set (map u_id (users ?l))"
    using p u by (simp_all add: LikePost_none [OF p u n])
  have pd: "10 \<in> set (posts ?d)" and ud: "1 \<in> set (map u_id (users ?d))"
    using p u by (simp_all add: DislikePost_none [OF p u n])
  note tl = post_vote_toggle_table [OF pl ul]
  note td = post_vote_toggle_table [OF pd ud]
  have sl: "stored_vote Post ?l 1 10 = Some True" and sd: "stored_vote Post ?d 1 10 = Some False"
    using t0 n by simp_all
  show ?thesis using n t0 tl td sl sd by simp
qed

subsection \<open>Votes on a target that does not exist\<close>

lemma INSERT_like_trace: "trace (snd (INSERT_like f t u p b d)) = trace d @ [Insert (Likes t)]"
  by (simp add: INSERT_like_def Let_def)

lemma DELETE_like_trace: "trace (snd (DELETE_like f t u p d)) = trace d @ [Delete (Likes t)]"
  by (simp add: DELETE_like_def Let_def)

lemma UPDATE_like_trace: "trace (snd (UPDATE_like f t u p b d)) = trace d @ [Update (Likes t)]"
  by (simp add: UPDATE_like_def Let_def)

lemmas like_write_trace = INSERT_like_trace DELETE_like_trace UPDATE_like_trace

lemma LikePost_missing:
  assumes "p \<notin> set (posts d)"
  shows "LikePost fs d u p =
    (Some (if fault fs 0 then DatabaseError DriverError else PostNotFound), sent (Select [Targets Post]) d)"
  using assms by (simp add: LikePost_def postExists_eq)

lemma DislikePost_missing:
  assumes "p \<notin> set (posts d)"
  shows "DislikePost fs d u p =
    (Some (if fault fs 0 then DatabaseError DriverError else PostNotFound), sent (Select [Targets Post]) d)"
  using assms by (simp add: DislikePost_def postExists_eq)

lemma LikeComment_missing:
  assumes "c \<notin> set (comments d)"
  shows "LikeComment fs d u c =
    (Some (if fault fs 0 then DatabaseError DriverError else CommentNotFound), sent (Select [Targets Comment]) d)"
  using assms by (simp add: LikeComment_def commentExists_eq)

lemma DislikeComment_missing:
  assumes "c \<notin> set (comments d)"
  shows "DislikeComment fs d u c =
    (Some (if fault fs 0 then DatabaseError DriverError else CommentNotFound), sent (Select [Targets Comment]) d)"
  using assms by (simp add: DislikeComment_def commentExists_eq)

lemma LikePost_trace:
  "\<exists>rest. trace (snd (LikePost fs d u p)) = trace d @ Select [Targets Post] # rest"
  by (cases "stored_vote Post d u p")
     (simp_all add: LikePost_def postExists_eq SELECT_is_like_eq like_write_trace)

lemma DislikePost_trace:
  "\<exists>rest. trace (snd (DislikePost fs d u p)) = trace d @ Select [Targets Post] # rest"
  by (cases "stored_vote Post d u p")
     (simp_all add: DislikePost_def postExists_eq SELECT_is_like_eq like_write_trace)

lemma LikeComment_trace:
  "\<exists>rest. trace (snd (LikeComment fs d u p)) = trace d @ Select [Targets Comment] # rest"
  by (cases "stored_vote Comment d u p")
     (simp_all add: LikeComment_def commentExists_eq SELECT_is_like_eq like_write_trace)

lemma DislikeComment_trace:
  "\<exists>rest. trace (snd (DislikeComment fs d u p)) = trace d @ Select [Targets Comment] # rest"
  by (cases "stored_vote Comment d u p")
     (simp_all add: DislikeComment_def commentExists_eq SELECT_is_like_eq like_write_trace)

text \<open>
  Claim C3. When no post with the given id exists, \<^verbatim>\<open>LikePost\<close> and \<^verbatim>\<open>DislikePost\<close>
  return the error \<^verbatim>\<open>post not found\<close> (or, when the existence query itself fails, the
  wrapped database error), leave both vote tables as they were, and send no statement but
  the existence query; the same holds of \<^verbatim>\<open>LikeComment\<close> and \<^verbatim>\<open>DislikeComment\<close> for a
  comment that does not exist. On every input, the existence query is the first statement
  each of the four operations sends, so it comes before any read or write of a vote row.
\<close>

theorem vote_on_missing_target:
  "(postID \<notin> set (posts d) \<longrightarrow>
       fst (LikePost fs d userID postID)
         = Some (if fault fs 0 then DatabaseError DriverError else PostNotFound)
       \<and> post_likes (snd (LikePost fs d userID postID)) = post_likes d
       \<and> comment_likes (snd (LikePost fs d userID postID)) = comment_likes d
       \<and> trace (snd (LikePost fs d userID postID)) = trace d @ [Select [Targets Post]]
       \<and> fst (DislikePost fs d userID postID)
         = Some (if fault fs 0 then DatabaseError DriverError else PostNotFound)
       \<and> post_likes (snd (DislikePost fs d userID postID)) = post_likes d
       \<and> comment_likes (snd (DislikePost fs d userID postID)) = comment_likes d
       \<and> trace (snd (DislikePost fs d userID postID)) = trace d @ [Select [Targets Post]])
   \<and> (commentID \<notin> set (comments d) \<longrightarrow>
       fst (LikeComment fs d userID commentID)
         = Some (if fault fs 0 then DatabaseError DriverError else CommentNotFound)
       \<and> post_likes (snd (LikeComment fs d userID commentID)) = post_likes d
       \<and> comment_likes (snd (LikeComment fs d userID commentID)) = comment_likes d
       \<and> trace (snd (LikeComment fs d userID commentID)) = trace d @ [Select [Targets Comment]]
       \<and> fst (DislikeComment fs d userID commentID)
         = Some (if fault fs 0 then DatabaseError DriverError else CommentNotFound)
       \<and> post_likes (snd (DislikeComment fs d userID commentID)) = post_likes d
       \<and> comment_likes (snd (DislikeComment fs d userID commentID)) = comment_likes d
       \<and> trace (snd (DislikeComment fs d userID commentID)) = trace d @ [Select [Targets Comment]])
   \<and> (\<exists>rest. trace (snd (LikePost fs d userID postID)) = trace d @ Select [Targets Post] # rest)
   \<and> (\<exists>rest. trace (snd (DislikePost fs d userID postID)) = trace d @ Select [Targets Post] # rest)
   \<and> (\<exists>rest. trace (snd (LikeComment fs d userID commentID))
          = trace d @ Select [Targets Comment] # rest)
   \<and> (\<exists>rest. trace (snd (DislikeComment fs d userID commentID))
          = trace d @ Select [Targets Comment] # rest)"
proof -
  have a: "postID \<notin> set (posts d) \<Longrightarrow>
       fst (LikePost fs d userID postID)
         = Some (if fault fs 0 then DatabaseError DriverError else PostNotFound)
       \<and> post_likes (snd (LikePost fs d userID postID)) = post_likes d
       \<and> comment_likes (snd (LikePost fs d userID postID)) = comment_likes d
       \<and> trace (snd (LikePost fs d userID postID)) = trace d @ [Select [Targets Post]]
       \<and> fst (DislikePost fs d userID postID)
         = Some (if fault fs 0 then DatabaseError DriverError else PostNotFound)
       \<and> post_likes (snd (DislikePost fs d userID postID)) = post_likes d
       \<and> comment_likes (snd (DislikePost fs d userID postID)) = comment_likes d
       \<and> trace (snd (DislikePost fs d userID postID)) = trace d @ [Select [Targets Post]]"
    by (simp add: LikePost_missing DislikePost_missing)
  have b: "commentID \<notin> set (comments d) \<Longrightarrow>
       fst (LikeComment fs d userID commentID)
         = Some (if fault fs 0 then DatabaseError DriverError else CommentNotFound)
       \<and> post_likes (snd (LikeComment fs d userID commentID)) = post_likes d
       \<and> comment_likes (snd (LikeComment fs d userID commentID)) = comment_likes d
       \<and> trace (snd (LikeComment fs d userID commentID)) = trace d @ [Select [Targets Comment]]
       \<and> fst (DislikeComment fs d userID commentID)
         = Some (if fault fs 0 then DatabaseError DriverError else CommentNotFound)
       \<and> post_likes (snd (DislikeComment fs d userID commentID)) = post_likes d
       \<and> comment_likes (snd (DislikeComment fs d userID commentID)) = comment_likes d
       \<and> trace (snd (DislikeComment fs d userID commentID)) = trace d @ [Select [Targets Comment]]"
    by (simp add: LikeComment_missing DislikeComment_missing)
  show ?thesis
    using a b LikePost_trace [of fs d userID postID] DislikePost_trace [of fs d userID postID]
      LikeComment_trace [of fs d userID commentID] DislikeComment_trace [of fs d userID commentID]
    by blast
qed

theorem vote_on_missing_target_witness:
  "11 \<notin> set (posts sample_db) \<and> 21 \<notin> set (comments sample_db)
   \<and> fst (LikePost [] sample_db 1 11) = Some PostNotFound
   \<and> post_likes (snd (LikePost [] sample_db 1 11)) = post_likes sample_db
   \<and> fst (DislikePost [] sample_db 1 11) = Some PostNotFound
   \<and> fst (LikePost [True] sample_db 1 11) = Some (DatabaseError DriverError)
   \<and> fst (LikeComment [] sample_db 1 21) = Some CommentNotFound
   \<and> fst (DislikeComment [] sample_db 1 21) = Some CommentNotFound
   \<and> comment_likes (snd (DislikeComment [] sample_db 1 21)) = comment_likes sample_db
   \<and> trace (snd (LikeComment [] sample_db 1 21)) = [Select [Targets Comment]]"
proof -
  have p: "11 \<notin> set (posts sample_db)" and c: "21 \<notin> set (comments sample_db)"
    and t: "trace sample_db = []"
    by (simp_all add: sample_db_def)
  have f: "\<not> fault [] 0" "fault [True] 0" by (simp_all add: fault_def)
  show ?thesis
    using vote_on_missing_target [of 11 sample_db "[]" 1 21]
      vote_on_missing_target [of 11 sample_db "[True]" 1 21] p c t f
    by simp
qed

subsection \<open>Counting the votes of a post\<close>

lemma counts_sum:
  "sum_list (map (\<lambda>row. if l_is_like row = True then 1 else 0) rows)
   + sum_list (map (\<lambda>row. if l_is_like row = False then 1 else 0) rows) = int (length rows)"
  by (induction rows) simp_all

lemma counts_not_both_zero:
  assumes "rows \<noteq> []"
  shows "\<not> (sum_list (map (\<lambda>row. if l_is_like row = True then 1 else 0) rows) = (0::int)
     \<and> sum_list (map (\<lambda>row. if l_is_like row = False then 1 else 0) rows) = (0::int))"
proof
  assume "sum_list (map (\<lambda>row. if l_is_like row = True then 1 else 0) rows) = (0::int)
     \<and> sum_list (map (\<lambda>row. if l_is_like row = False then 1 else 0) rows) = (0::int)"
  then have "int (length rows) = 0" using counts_sum [of rows] by simp
  then show False using assms by simp
qed

text \<open>
  Claim C10. For a post with no vote rows, \<^verbatim>\<open>GetPostLikeCounts\<close> returns an error: both
  sums are \<^verbatim>\<open>NULL\<close>, and \<^verbatim>\<open>Scan\<close> cannot convert \<^verbatim>\<open>NULL\<close> to an \<^verbatim>\<open>int\<close> (or
  the driver fails); the counts it returns beside the error are 0 and 0. The branch for
  \<^verbatim>\<open>sql.ErrNoRows\<close> is never taken, the query having always one result row, so the
  function returns the triple (0, 0, nil) on no input at all.
\<close>

theorem GetPostLikeCounts_no_votes:
  "(filter (\<lambda>row. l_target_id row = postID) (post_likes d) = [] \<longrightarrow>
      fst (GetPostLikeCounts fs d postID)
        = (0, 0, Some (if fault fs 0 then DriverError else ScanNullError)))
   \<and> fst (GetPostLikeCounts fs d postID) \<noteq> (0, 0, None)"
proof (cases "filter (\<lambda>row. l_target_id row = postID) (post_likes d) = []")
  case True
  then show ?thesis
    by (simp add: GetPostLikeCounts_def QueryRow_Scan_def sql_SUM_def)
next
  case False
  then show ?thesis using counts_not_both_zero [OF False]
    by (simp add: GetPostLikeCounts_def QueryRow_Scan_def sql_SUM_def Let_def)
qed

theorem GetPostLikeCounts_no_votes_witness:
  "10 \<in> set (posts sample_db)
   \<and> filter (\<lambda>row. l_target_id row = 10) (post_likes sample_db) = []
   \<and> fst (GetPostLikeCounts [] sample_db 10) = (0, 0, Some ScanNullError)"
proof -
  have h: "filter (\<lambda>row. l_target_id row = 10) (post_likes sample_db) = []"
    and p: "10 \<in> set (posts sample_db)"
    by (simp_all add: sample_db_def)
  show ?thesis using GetPostLikeCounts_no_votes [of 10 sample_db "[]"] h p by simp
qed

subsection \<open>The auth gate\<close>

lemma SELECT_user_by_token_mem:
  "row \<in> set (SELECT_user_by_token token now d) \<longleftrightarrow>
     row \<in> set (users d) \<and>
     (\<exists>s \<in> set (sessions d). u_id row = s_user_id s \<and> s_token s = token
        \<and> text_greater (s_expires_at s) (CURRENT_TIMESTAMP now))"
  by (auto simp: SELECT_user_by_token_def)

lemma GetUserByToken_eq:
  "GetUserByToken fs now d token =
     ((if fault fs 0 then Inl DriverError
       else case SELECT_user_by_token token now d of
              [] \<Rightarrow> Inl InvalidSession
            | row # _ \<Rightarrow>
                Inr \<lparr>ID = u_id row, UUID = u_uuid row, Username = u_username row, Email = u_email row,
                     PasswordHash = [],
                     AvatarURL = (case u_avatar_url row of Some a \<Rightarrow> a | None \<Rightarrow> []),
                     IsAdmin = u_is_admin row, CreatedAt = u_created_at row, UpdatedAt = 0\<rparr>),
      sent (Select [Users, Sessions]) d)"
  by (cases "SELECT_user_by_token token now d")
     (simp_all add: GetUserByToken_def QueryRow_Scan_def Let_def)

lemma GetUserByToken_Inr:
  assumes "fst (GetUserByToken fs now d token) = Inr user"
  shows "\<exists>s \<in> set (sessions d). s_token s = token
      \<and> text_greater (s_expires_at s) (CURRENT_TIMESTAMP now) \<and> s_user_id s = ID user
      \<and> (\<exists>row \<in> set (users d). u_id row = ID user \<and> u_username row = Username user)"
proof (cases "SELECT_user_by_token token now d")
  case Nil
  then show ?thesis using assms by (simp add: GetUserByToken_eq split: if_splits)
next
  case (Cons row rows)
  then have "row \<in> set (SELECT_user_by_token token now d)" by simp
  then have r: "row \<in> set (users d)"
    and "\<exists>s \<in> set (sessions d). u_id row = s_user_id s \<and> s_token s = token
        \<and> text_greater (s_expires_at s) (CURRENT_TIMESTAMP now)"
    by (simp_all add: SELECT_user_by_token_mem)
  then obtain s where s: "s \<in> set (sessions d)" "u_id row = s_user_id s" "s_token s = token"
    "text_greater (s_expires_at s) (CURRENT_TIMESTAMP now)" by blast
  have u: "ID user = u_id row" "Username user = u_username row"
    using assms Cons by (auto simp add: GetUserByToken_eq split: if_splits)
  show ?thesis using s r u by (intro bexI [of _ s] conjI bexI [of _ row]) simp_all
qed

text \<open>
  The gate itself follows \<^verbatim>\<open>GetUserByToken\<close>: \<^verbatim>\<open>RequireAuth\<close> redirects to
  \<^verbatim>\<open>/login\<close> with status 303 when the request has no \<^verbatim>\<open>session_token\<close> cookie and when
  \<^verbatim>\<open>GetUserByToken\<close> fails on the cookie's value, and it calls the downstream handler,
  with the user in the context, exactly when \<^verbatim>\<open>GetUserByToken\<close> returns a user. Then the
  store holds a session row with the cookie's token whose \<^verbatim>\<open>expires_at\<close> text is greater
  than the text of \<^verbatim>\<open>CURRENT_TIMESTAMP\<close>.
\<close>

lemma RequireAuth_follows_GetUserByToken:
  "(Cookie r ''session_token'' = None \<longrightarrow>
        RequireAuth fs now d r = (Redirect ''/login'' 303, d))
   \<and> (\<forall>cookie err. Cookie r ''session_token'' = Some cookie
          \<and> fst (GetUserByToken fs now d cookie) = Inl err \<longrightarrow>
        fst (RequireAuth fs now d r) = Redirect ''/login'' 303)
   \<and> (\<forall>cookie user. Cookie r ''session_token'' = Some cookie
          \<and> fst (GetUserByToken fs now d cookie) = Inr user \<longrightarrow>
        fst (RequireAuth fs now d r) = Next (Some user))
   \<and> (\<forall>ctx. fst (RequireAuth fs now d r) = Next ctx \<longrightarrow>
        (\<exists>cookie user. Cookie r ''session_token'' = Some cookie \<and> ctx = Some user
           \<and> fst (GetUserByToken fs now d cookie) = Inr user
           \<and> (\<exists>s \<in> set (sessions d). s_token s = cookie
                  \<and> text_greater (s_expires_at s) (CURRENT_TIMESTAMP now)
                  \<and> s_user_id s = ID user)))"
proof (intro conjI allI impI)
  assume "Cookie r ''session_token'' = None"
  then show "RequireAuth fs now d r = (Redirect ''/login'' 303, d)"
    by (simp add: RequireAuth_def StatusSeeOther_def)
next
  fix cookie err
  assume "Cookie r ''session_token'' = Some cookie \<and> fst (GetUserByToken fs now d cookie) = Inl err"
  then show "fst (RequireAuth fs now d r) = Redirect ''/login'' 303"
    by (cases "GetUserByToken fs now d cookie") (simp add: RequireAuth_def StatusSeeOther_def)
next
  fix cookie user
  assume "Cookie r ''session_token'' = Some cookie \<and> fst (GetUserByToken fs now d cookie) = Inr user"
  then show "fst (RequireAuth fs now d r) = Next (Some user)"
    by (cases "GetUserByToken fs now d cookie") (simp add: RequireAuth_def)
next
  fix ctx
  assume n: "fst (RequireAuth fs now d r) = Next ctx"
  then obtain cookie where c: "Cookie r ''session_token'' = Some cookie"
    by (cases "Cookie r ''session_token''") (simp_all add: RequireAuth_def)
  obtain res d1 where g: "GetUserByToken fs now d cookie = (res, d1)"
    by (cases "GetUserByToken fs now d cookie")
  from n c g obtain user where u: "res = Inr user" "ctx = Some user"
    by (cases res) (simp_all add: RequireAuth_def)
  have "fst (GetUserByToken fs now d cookie) = Inr user" using g u by simp
  then show "\<exists>cookie user. Cookie r ''session_token'' = Some cookie \<and> ctx = Some user
           \<and> fst (GetUserByToken fs now d cookie) = Inr user
           \<and> (\<exists>s \<in> set (sessions d). s_token s = cookie
                  \<and> text_greater (s_expires_at s) (CURRENT_TIMESTAMP now)
                  \<and> s_user_id s = ID user)"
    using c u GetUserByToken_Inr [of fs now d cookie user] by blast
qed

text \<open>
  Claim C9 says that \<^verbatim>\<open>RequireAuth\<close> calls the downstream handler only for a session
  that has not expired. The expiry is written as local time with its offset
  (\<^verbatim>\<open>time.Now().Add(24 * time.Hour)\<close>, bound by the driver as text) and compared, as
  text, with \<^verbatim>\<open>CURRENT_TIMESTAMP\<close>, which is UTC; east of UTC a session therefore
  resolves for as long after its expiry as the zone is ahead. In the zone the repository
  runs in, a session created on 2 November 2024 at 10:00:00 UTC expires on 3 November at
  10:00:00 UTC and is stored as \<^verbatim>\<open>2024-11-03 15:00:00+05:00\<close>; a request with its cookie
  one hour after the expiry, when \<^verbatim>\<open>CURRENT_TIMESTAMP\<close> is \<^verbatim>\<open>2024-11-03 11:00:00\<close>, is
  passed on to the downstream handler.
\<close>

theorem RequireAuth_passes_expired_session:
  "sessions (snd (CreateSession [] (Some ''tok'')
        \<lparr>t_sec = 1730541600, t_nsec = 0, t_loc = Asia_Almaty\<rparr> sample_db 1))
     = [\<lparr>s_token = ''tok'', s_user_id = 1, s_expires_at = ''2024-11-03 15:00:00+05:00''\<rparr>]
   \<and> t_sec (Add \<lparr>t_sec = 1730541600, t_nsec = 0, t_loc = Asia_Almaty\<rparr> (24 * Hour)) = 1730628000
   \<and> CURRENT_TIMESTAMP 1730628000 = ''2024-11-03 10:00:00''
   \<and> CURRENT_TIMESTAMP (1730628000 + 3600) = ''2024-11-03 11:00:00''
   \<and> fst (RequireAuth [] (1730628000 + 3600)
        (snd (CreateSession [] (Some ''tok'')
           \<lparr>t_sec = 1730541600, t_nsec = 0, t_loc = Asia_Almaty\<rparr> sample_db 1))
        \<lparr>cookies = [(''session_token'', ''tok'')]\<rparr>)
     = Next (Some \<lparr>ID = 1, UUID = ''550e8400-e29b-41d4-a716-446655440000'', Username = ''admin'',
          Email = ''admin@forum.local'', PasswordHash = [], AvatarURL = [], IsAdmin = True,
          CreatedAt = 0, UpdatedAt = 0\<rparr>)"
proof -
  let ?now = "\<lparr>t_sec = 1730541600, t_nsec = 0, t_loc = Asia_Almaty\<rparr>"
  let ?d = "snd (CreateSession [] (Some ''tok'') ?now sample_db 1)"
  let ?row = "\<lparr>s_token = ''tok'', s_user_id = 1, s_expires_at = ''2024-11-03 15:00:00+05:00''\<rparr>"
  have a: "t_sec (Add ?now (24 * Hour)) = 1730628000"
    by (simp add: Add_def Hour_def)
  have f: "Format_SQLiteTimestamp (Add ?now (24 * Hour)) = ''2024-11-03 15:00:00+05:00''"
    by code_simp
  have ses: "sessions ?d = [?row]"
    by (simp add: CreateSession_def DELETE_sessions_def INSERT_session_def sent_def sample_db_def f)
  have us: "users ?d = users sample_db"
    by (simp add: CreateSession_def DELETE_sessions_def INSERT_session_def sent_def sample_db_def f)
  have t0: "CURRENT_TIMESTAMP 1730628000 = ''2024-11-03 10:00:00''"
    by code_simp
  have t1: "CURRENT_TIMESTAMP (1730628000 + 3600) = ''2024-11-03 11:00:00''"
    by code_simp
  have gt: "text_greater ''2024-11-03 15:00:00+05:00'' ''2024-11-03 11:00:00''"
    by code_simp
  have q: "SELECT_user_by_token ''tok'' (1730628000 + 3600) ?d = users sample_db"
    unfolding SELECT_user_by_token_def ses us t1 by (simp add: sample_db_def gt)
  have g: "fst (GetUserByToken [] (1730628000 + 3600) ?d ''tok'')
      = Inr \<lparr>ID = 1, UUID = ''550e8400-e29b-41d4-a716-446655440000'', Username = ''admin'',
          Email = ''admin@forum.local'', PasswordHash = [], AvatarURL = [], IsAdmin = True,
          CreatedAt = 0, UpdatedAt = 0\<rparr>"
    unfolding GetUserByToken_eq q by (simp add: sample_db_def)
  have c: "Cookie \<lparr>cookies = [(''session_token'', ''tok'')]\<rparr> ''session_token'' = Some ''tok''"
    by (simp add: Cookie_def)
  have r: "fst (RequireAuth [] (1730628000 + 3600) ?d \<lparr>cookies = [(''session_token'', ''tok'')]\<rparr>)
      = Next (Some \<lparr>ID = 1, UUID = ''550e8400-e29b-41d4-a716-446655440000'', Username = ''admin'',
          Email = ''admin@forum.local'', PasswordHash = [], AvatarURL = [], IsAdmin = True,
          CreatedAt = 0, UpdatedAt = 0\<rparr>)"
    using RequireAuth_follows_GetUserByToken
      [of "\<lparr>cookies = [(''session_token'', ''tok'')]\<rparr>" "[]" "1730628000 + 3600" ?d] c g
    by blast
  show ?thesis using ses a t0 t1 r by (intro conjI)
qed

text \<open>
  West of UTC the same comparison errs the other way: five hours behind UTC, a session
  created on 2 November 2024 at 10:00:00 UTC is stored as expiring at
  \<^verbatim>\<open>2024-11-03 05:00:00-05:00\<close>, and four hours before its expiry, when
  \<^verbatim>\<open>CURRENT_TIMESTAMP\<close> is \<^verbatim>\<open>2024-11-03 06:00:00\<close>, it no longer resolves.
\<close>

lemma GetUserByToken_refuses_live_session_west:
  "fst (GetUserByToken [] (1730628000 - 4 * 3600)
        (snd (CreateSession [] (Some ''tok'')
           \<lparr>t_sec = 1730541600, t_nsec = 0, t_loc = (\<lambda>_. - 18000)\<rparr> sample_db 1))
        ''tok'')
     = Inl InvalidSession"
proof -
  let ?now = "\<lparr>t_sec = 1730541600, t_nsec = 0, t_loc = (\<lambda>_. - 18000)\<rparr>"
  let ?d = "snd (CreateSession [] (Some ''tok'') ?now sample_db 1)"
  have f: "Format_SQLiteTimestamp (Add ?now (24 * Hour)) = ''2024-11-03 05:00:00-05:00''"
    by code_simp
  have ses: "sessions ?d
      = [\<lparr>s_token = ''tok'', s_user_id = 1, s_expires_at = ''2024-11-03 05:00:00-05:00''\<rparr>]"
    by (simp add: CreateSession_def DELETE_sessions_def INSERT_session_def sent_def sample_db_def f)
  have t: "CURRENT_TIMESTAMP (1730628000 - 4 * 3600) = ''2024-11-03 06:00:00''"
    by code_simp
  have gt: "\<not> text_greater ''2024-11-03 05:00:00-05:00'' ''2024-11-03 06:00:00''"
    by code_simp
  have q: "SELECT_user_by_token ''tok'' (1730628000 - 4 * 3600) ?d = []"
    unfolding SELECT_user_by_token_def ses t by (simp add: gt)
  show ?thesis unfolding GetUserByToken_eq q by simp
qed

subsection \<open>One session per user\<close>

lemma CreateSession_Inr:
  assumes "CreateSession fs rnd now d userID = (Inr token, d')"
  shows "rnd = Some token
     \<and> sessions d' = other_sessions userID d
          @ [\<lparr>s_token = token, s_user_id = userID,
              s_expires_at = Format_SQLiteTimestamp (Add now (24 * Hour))\<rparr>]
     \<and> token \<notin> set (map s_token (other_sessions userID d))
     \<and> users d' = users d"
proof -
  from assms have f0: "\<not> fault fs 0"
    by (auto simp: CreateSession_def DELETE_sessions_def Let_def)
  then have del: "DELETE_sessions (fault fs 0) userID d =
      (None, (sent (Delete Sessions) d)\<lparr>sessions := other_sessions userID d\<rparr>)"
    by (simp add: DELETE_sessions_def Let_def other_sessions_def)
  from assms del obtain tok where r: "rnd = Some tok"
    by (cases rnd) (simp_all add: CreateSession_def)
  let ?d1 = "(sent (Delete Sessions) d)\<lparr>sessions := other_sessions userID d\<rparr>"
  from assms del r
  have ins: "(case INSERT_session (fault fs 1) tok userID (Add now (24 * Hour)) ?d1 of
        (Some err, d2) \<Rightarrow> (Inl err, d2) | (None, d2) \<Rightarrow> (Inr tok, d2)) = (Inr token, d')"
    by (simp add: CreateSession_def Let_def)
  then have ok: "INSERT_session (fault fs 1) tok userID (Add now (24 * Hour)) ?d1 = (None, d')"
    and t: "tok = token"
    by (auto split: prod.splits option.splits)
  from ok have "sessions d' = other_sessions userID d
          @ [\<lparr>s_token = tok, s_user_id = userID,
              s_expires_at = Format_SQLiteTimestamp (Add now (24 * Hour))\<rparr>]
     \<and> tok \<notin> set (map s_token (other_sessions userID d)) \<and> users d' = users d"
    by (auto simp: INSERT_session_def Let_def split: if_splits)
  then show ?thesis using r t by simp
qed

lemma other_sessions_after:
  "sessions d' = other_sessions userID d @ [\<lparr>s_token = t, s_user_id = userID, s_expires_at = e\<rparr>]
   \<Longrightarrow> other_sessions userID d' = other_sessions userID d"
  by (simp add: other_sessions_def)

lemma CreateSession_calls_Inr:
  assumes "CreateSession_calls calls d userID = (Inr tokens, d')" and "calls \<noteq> []"
  shows "tokens \<noteq> []
     \<and> (\<exists>e. sessions d' = other_sessions userID d
            @ [\<lparr>s_token = last tokens, s_user_id = userID, s_expires_at = e\<rparr>])
     \<and> (\<forall>t \<in> set tokens. t \<notin> set (map s_token (other_sessions userID d)))"
  using assms
proof (induction calls arbitrary: d tokens)
  case Nil
  then show ?case by simp
next
  case (Cons call calls)
  obtain fs rnd now where call: "call = (fs, rnd, now)" by (cases call)
  from Cons.prems(1) call obtain token d1 where
    first: "CreateSession fs rnd now d userID = (Inr token, d1)"
    by (cases "CreateSession fs rnd now d userID"; cases "fst (CreateSession fs rnd now d userID)")
       auto
  from Cons.prems(1) call first obtain rest where
    rest: "CreateSession_calls calls d1 userID = (Inr rest, d')" and tokens: "tokens = token # rest"
    by (cases "CreateSession_calls calls d1 userID";
        cases "fst (CreateSession_calls calls d1 userID)") auto
  note c = CreateSession_Inr [OF first]
  have o: "other_sessions userID d1 = other_sessions userID d"
    using c other_sessions_after by blast
  show ?case
  proof (cases "calls = []")
    case True
    then have "rest = []" "d' = d1" using rest by simp_all
    then show ?thesis using c tokens by simp
  next
    case False
    from Cons.IH [OF rest False] o
    have "rest \<noteq> []"
      and "\<exists>e. sessions d' = other_sessions userID d
            @ [\<lparr>s_token = last rest, s_user_id = userID, s_expires_at = e\<rparr>]"
      and "\<forall>t \<in> set rest. t \<notin> set (map s_token (other_sessions userID d))"
      by simp_all
    then show ?thesis using c tokens by simp
  qed
qed

lemma SELECT_user_by_token_none:
  assumes "token \<notin> set (map s_token (sessions d))"
  shows "SELECT_user_by_token token now d = []"
proof (cases "SELECT_user_by_token token now d")
  case Nil
  then show ?thesis .
next
  case (Cons row rows)
  then have "row \<in> set (SELECT_user_by_token token now d)" by simp
  then obtain s where "s \<in> set (sessions d)" "s_token s = token"
    unfolding SELECT_user_by_token_mem by blast
  then show ?thesis using assms by auto
qed

text \<open>
  Claim C2. After one or more successful calls of \<^verbatim>\<open>CreateSession\<close> for a user, one
  after the other, the store holds exactly one session row of that user, and its token is
  the one the last call returned; \<^verbatim>\<open>GetUserByToken\<close> fails on every token an earlier call
  returned, with the error \<^verbatim>\<open>invalid or expired session\<close> when the store works. The
  token of the last call is taken to differ from the tokens returned before it: each is 32
  bytes from \<^verbatim>\<open>crypto/rand\<close>, and were the source to repeat a token, the earlier token
  would be the live one.
\<close>

theorem single_session_per_user:
  assumes "CreateSession_calls calls d userID = (Inr tokens, d')"
    and "calls \<noteq> []" and "last tokens \<notin> set (butlast tokens)"
  shows "(\<exists>row. filter (\<lambda>row. s_user_id row = userID) (sessions d') = [row]
            \<and> s_token row = last tokens)
     \<and> (\<forall>t \<in> set (butlast tokens).
           fst (GetUserByToken fs now d' t)
             = Inl (if fault fs 0 then DriverError else InvalidSession))"
proof -
  from CreateSession_calls_Inr [OF assms(1,2)] obtain e where
    ne: "tokens \<noteq> []"
    and s: "sessions d' = other_sessions userID d
            @ [\<lparr>s_token = last tokens, s_user_id = userID, s_expires_at = e\<rparr>]"
    and fresh: "\<forall>t \<in> set tokens. t \<notin> set (map s_token (other_sessions userID d))"
    by blast
  have one: "filter (\<lambda>row. s_user_id row = userID) (sessions d')
      = [\<lparr>s_token = last tokens, s_user_id = userID, s_expires_at = e\<rparr>]"
    unfolding s by (simp add: other_sessions_def)
  have old: "fst (GetUserByToken fs now d' t)
      = Inl (if fault fs 0 then DriverError else InvalidSession)"
    if t: "t \<in> set (butlast tokens)" for t
  proof -
    have "t \<in> set tokens" using t by (rule in_set_butlastD)
    then have a: "t \<notin> set (map s_token (other_sessions userID d))" using fresh by blast
    have "t \<noteq> last tokens" using assms(3) t by blast
    then have "t \<notin> set (map s_token (sessions d'))" unfolding s using a by simp
    then have "SELECT_user_by_token t now d' = []" by (rule SELECT_user_by_token_none)
    then show ?thesis by (simp add: GetUserByToken_eq)
  qed
  show ?thesis using one old by simp
qed

theorem single_session_per_user_witness:
  "fst (CreateSession_calls
          [([], Some ''tokenA'', \<lparr>t_sec = 1730541600, t_nsec = 0, t_loc = Asia_Almaty\<rparr>),
           ([], Some ''tokenB'', \<lparr>t_sec = 1730545200, t_nsec = 500000000, t_loc = Asia_Almaty\<rparr>)]
          sample_db 1)
     = Inr [''tokenA'', ''tokenB'']
   \<and> filter (\<lambda>row. s_user_id row = 1)
       (sessions (snd (CreateSession_calls
          [([], Some ''tokenA'', \<lparr>t_sec = 1730541600, t_nsec = 0, t_loc = Asia_Almaty\<rparr>),
           ([], Some ''tokenB'', \<lparr>t_sec = 1730545200, t_nsec = 500000000, t_loc = Asia_Almaty\<rparr>)]
          sample_db 1)))
     = [\<lparr>s_token = ''tokenB'', s_user_id = 1, s_expires_at = ''2024-11-03 16:00:00.5+05:00''\<rparr>]
   \<and> fst (GetUserByToken [] 1730548800
        (snd (CreateSession_calls
          [([], Some ''tokenA'', \<lparr>t_sec = 1730541600, t_nsec = 0, t_loc = Asia_Almaty\<rparr>),
           ([], Some ''tokenB'', \<lparr>t_sec = 1730545200, t_nsec = 500000000, t_loc = Asia_Almaty\<rparr>)]
          sample_db 1))
        ''tokenA'') = Inl InvalidSession"
proof -
  let ?calls = "[([], Some ''tokenA'', \<lparr>t_sec = 1730541600, t_nsec = 0, t_loc = Asia_Almaty\<rparr>),
           ([], Some ''tokenB'', \<lparr>t_sec = 1730545200, t_nsec = 500000000, t_loc = Asia_Almaty\<rparr>)]
       :: (bool list \<times> string option \<times> Time) list"
  let ?d' = "snd (CreateSession_calls ?calls sample_db 1)"
  have f: "Format_SQLiteTimestamp
        (Add \<lparr>t_sec = 1730545200, t_nsec = 500000000, t_loc = Asia_Almaty\<rparr> (24 * Hour))
      = ''2024-11-03 16:00:00.5+05:00''"
    by code_simp
  have r: "fst (CreateSession_calls ?calls sample_db 1) = Inr [''tokenA'', ''tokenB'']"
    by (simp add: CreateSession_def DELETE_sessions_def INSERT_session_def sent_def sample_db_def)
  have ses: "sessions ?d'
      = [\<lparr>s_token = ''tokenB'', s_user_id = 1, s_expires_at = ''2024-11-03 16:00:00.5+05:00''\<rparr>]"
    by (simp add: CreateSession_def DELETE_sessions_def INSERT_session_def sent_def sample_db_def f)
  have run: "CreateSession_calls ?calls sample_db 1 = (Inr [''tokenA'', ''tokenB''], ?d')"
    using r by (metis prod.collapse)
  have ne: "?calls \<noteq> []"
    and di: "last [''tokenA'', ''tokenB''] \<notin> set (butlast [''tokenA'', ''tokenB''])"
    by simp_all
  note th = single_session_per_user [OF run ne di, of "[]" 1730548800]
  have one: "filter (\<lambda>row. s_user_id row = 1) (sessions ?d')
      = [\<lparr>s_token = ''tokenB'', s_user_id = 1, s_expires_at = ''2024-11-03 16:00:00.5+05:00''\<rparr>]"
    unfolding ses by simp
  have m: "''tokenA'' \<in> set (butlast [''tokenA'', ''tokenB''])" by simp
  have f0: "\<not> fault [] 0" by (simp add: fault_def)
  from th have "\<forall>t \<in> set (butlast [''tokenA'', ''tokenB'']).
      fst (GetUserByToken [] 1730548800 ?d' t)
        = Inl (if fault [] 0 then DriverError else InvalidSession)"
    by (rule conjunct2)
  then have "fst (GetUserByToken [] 1730548800 ?d' ''tokenA'')
      = Inl (if fault [] 0 then DriverError else InvalidSession)"
    using m by (rule bspec)
  then have old: "fst (GetUserByToken [] 1730548800 ?d' ''tokenA'') = Inl InvalidSession"
    using f0 by (simp only: if_False)
  show ?thesis using r one old by (intro conjI)
qed

end
